theory Spec2Isabelle
  imports Main "HOL-Library.Multiset"
begin

section \<open>Common Python values\<close>

text \<open>
  Exceptions of the two modules are values. Every \<^verbatim>\<open>raise\<close>, failed \<^verbatim>\<open>assert\<close>
  and failing built-in of the source is a branch that returns \<open>Inl\<close> of one of these.
\<close>

datatype error =
    ImproperlyConfigured string
  | ImportError string
  | NotImplementedError
  | AssertionError
  | TypeError
  | ValueError
  | KeyError
  | ContextPopException
  | ConfigurationError string
  | OtherError string

text \<open>Position of the first occurrence of a character, if any.\<close>

fun index_of :: "char \<Rightarrow> string \<Rightarrow> nat option" where
  "index_of c [] = None"
| "index_of c (x # xs) = (if x = c then Some 0 else map_option Suc (index_of c xs))"

text \<open>\<^verbatim>\<open>s.rfind(c)\<close>: the highest index of \<open>c\<close>, or \<open>-1\<close>.\<close>

definition rfind :: "char \<Rightarrow> string \<Rightarrow> int" where
  "rfind c s =
     (case index_of c (rev s) of
        None \<Rightarrow> - 1
      | Some k \<Rightarrow> int (length s) - 1 - int k)"

text \<open>\<^verbatim>\<open>s[:i]\<close> and \<^verbatim>\<open>s[j:]\<close>, a negative bound counting from the end.\<close>

definition slice_to :: "string \<Rightarrow> int \<Rightarrow> string" where
  "slice_to s i = (if i < 0 then take (nat (int (length s) + i)) s else take (nat i) s)"

definition slice_from :: "string \<Rightarrow> int \<Rightarrow> string" where
  "slice_from s j = (if j < 0 then drop (nat (int (length s) + j)) s else drop (nat j) s)"

text \<open>\<^verbatim>\<open>s.split(c)\<close> with an explicit separator: empty pieces are kept.\<close>

fun split_sep :: "char \<Rightarrow> string \<Rightarrow> string list" where
  "split_sep c [] = [[]]"
| "split_sep c (x # xs) =
     (if x = c then [] # split_sep c xs
      else (case split_sep c xs of
              [] \<Rightarrow> [[x]]
            | w # ws \<Rightarrow> (x # w) # ws))"

text \<open>\<^verbatim>\<open>s.split(c, 1)\<close>: at most one split, at the first separator.\<close>

definition split_first :: "char \<Rightarrow> string \<Rightarrow> string list" where
  "split_first c s =
     (case index_of c s of
        None \<Rightarrow> [s]
      | Some k \<Rightarrow> [take k s, drop (Suc k) s])"


section \<open>Web API authentication: \<^verbatim>\<open>djblets/webapi/auth.py\<close>\<close>

subsection \<open>Data\<close>

text \<open>
  A user of the identity provider (\<^verbatim>\<open>django.contrib.auth\<close>). The request carries the
  header table \<^verbatim>\<open>META\<close> and the session's user; \<open>None\<close> is the anonymous user, whose
  \<^verbatim>\<open>is_authenticated()\<close> is false.
\<close>

record user =
  user_name :: string
  is_active :: bool

record request =
  META :: "string \<rightharpoonup> string"
  request_user :: "user option"

text \<open>The tuple \<^verbatim>\<open>(is_successful, error_message, headers)\<close> of \<^verbatim>\<open>authenticate\<close>.\<close>

type_synonym auth_result = "bool \<times> string option \<times> (string \<times> string) list option"

text \<open>
  What \<^verbatim>\<open>get_credentials\<close> may return: \<^verbatim>\<open>None\<close>, a dictionary (an empty one is
  falsy), a result tuple, or any other truthy value (on which the \<^verbatim>\<open>assert\<close> of
  \<^verbatim>\<open>authenticate\<close> fails).
\<close>

datatype credentials =
    CredNone
  | CredDict "(string \<times> string) list"
  | CredTuple auth_result
  | CredOther

text \<open>
  A backend class: the attribute \<^verbatim>\<open>www_auth_scheme\<close> and the method
  \<^verbatim>\<open>get_credentials\<close> that subclasses override. The methods \<^verbatim>\<open>authenticate\<close> and
  \<^verbatim>\<open>login_with_credentials\<close> are those of the base class \<^verbatim>\<open>WebAPIAuthBackend\<close>.
\<close>

record auth_backend =
  www_auth_scheme :: "string option"
  get_credentials :: "request \<Rightarrow> error + credentials"

text \<open>
  Calls made to the collaborators, in order: reading the setting
  \<^verbatim>\<open>WEB_API_AUTH_BACKENDS\<close>, \<^verbatim>\<open>__import__\<close> of a module, and the identity
  provider's \<^verbatim>\<open>auth.authenticate\<close>, \<^verbatim>\<open>auth.login\<close> and \<^verbatim>\<open>auth.logout\<close>.
  The \<^verbatim>\<open>logging\<close> calls are diagnostics and are not recorded.
\<close>

datatype event =
    SettingsRead
  | Import string
  | Validate string string
  | EstablishSession string
  | ClearSession

text \<open>The module's global \<^verbatim>\<open>_auth_backends\<close> and the trace of collaborator calls.\<close>

record world =
  auth_backends :: "auth_backend list"
  events :: "event list"

text \<open>
  The collaborators are parameters: the setting (\<open>None\<close> when the attribute is absent
  from \<^verbatim>\<open>settings\<close>), the importer (\<^verbatim>\<open>__import__\<close> followed by \<^verbatim>\<open>getattr\<close> on the
  module it returns, \<open>None\<close> there being \<^verbatim>\<open>AttributeError\<close>), and the identity
  provider's \<^verbatim>\<open>auth.authenticate\<close>.
\<close>

type_synonym importer = "string \<Rightarrow> error + (string \<rightharpoonup> auth_backend)"

type_synonym identity_provider = "string \<Rightarrow> string \<Rightarrow> user option"

subsection \<open>\<^verbatim>\<open>WebAPIAuthBackend\<close>\<close>

definition login_with_credentials ::
  "identity_provider \<Rightarrow> request \<Rightarrow> string \<Rightarrow> string \<Rightarrow> event list
     \<Rightarrow> auth_result \<times> request \<times> event list" where
  "login_with_credentials idp req username password ev =
     (if (case request_user req of None \<Rightarrow> False | Some u \<Rightarrow> user_name u = username)
      then ((True, None, None), req, ev)
      else
        (let ev1 = ev @ [Validate username password]
         in case idp username password of
              None \<Rightarrow> ((False, None, None), req\<lparr>request_user := None\<rparr>, ev1 @ [ClearSession])
            | Some u \<Rightarrow>
                if is_active u
                then ((True, None, None), req\<lparr>request_user := Some u\<rparr>,
                      ev1 @ [EstablishSession (user_name u)])
                else ((False, None, None), req\<lparr>request_user := None\<rparr>,
                      ev1 @ [ClearSession])))"

definition authenticate ::
  "identity_provider \<Rightarrow> auth_backend \<Rightarrow> request \<Rightarrow> event list
     \<Rightarrow> (error + auth_result option) \<times> request \<times> event list" where
  "authenticate idp b req ev =
     (case get_credentials b req of
        Inl e \<Rightarrow> (Inl e, req, ev)
      | Inr CredNone \<Rightarrow> (Inr None, req, ev)
      | Inr (CredDict kvs) \<Rightarrow>
          if kvs = [] then (Inr None, req, ev)
          else (case (map_of kvs ''username'', map_of kvs ''password'') of
                  (Some u, Some p) \<Rightarrow>
                    (case login_with_credentials idp req u p ev of
                       (res, req', ev') \<Rightarrow> (Inr (Some res), req', ev'))
                | _ \<Rightarrow> (Inl TypeError, req, ev))
      | Inr (CredTuple t) \<Rightarrow> (Inr (Some t), req, ev)
      | Inr CredOther \<Rightarrow> (Inl AssertionError, req, ev))"

text \<open>The base class leaves \<^verbatim>\<open>get_credentials\<close> to its subclasses.\<close>

definition WebAPIAuthBackend :: auth_backend where
  "WebAPIAuthBackend =
     \<lparr>www_auth_scheme = None, get_credentials = (\<lambda>req. Inl NotImplementedError)\<rparr>"

subsection \<open>\<^verbatim>\<open>WebAPIBasicAuthBackend\<close>\<close>

text \<open>
  The base64 codec is a parameter; an \<open>Inl\<close> is the exception it raises. Only
  \<^verbatim>\<open>ValueError\<close> is caught, around both splits and the decoding, and the realm is
  compared after them.
\<close>

definition basic_get_credentials ::
  "(string \<Rightarrow> error + string) \<Rightarrow> request \<Rightarrow> error + credentials" where
  "basic_get_credentials b64decode req =
     (case META req ''HTTP_AUTHORIZATION'' of
        None \<Rightarrow> Inl KeyError
      | Some header \<Rightarrow>
          (case split_sep CHR '' '' header of
             [realm, encoded_auth] \<Rightarrow>
               (case b64decode encoded_auth of
                  Inl e \<Rightarrow> if e = ValueError then Inr CredNone else Inl e
                | Inr decoded \<Rightarrow>
                    (case split_first CHR '':'' decoded of
                       [username, password] \<Rightarrow>
                         if realm \<noteq> ''Basic'' then Inr CredNone
                         else Inr (CredDict [(''username'', username),
                                             (''password'', password)])
                     | _ \<Rightarrow> Inr CredNone))
           | _ \<Rightarrow> Inr CredNone))"

definition WebAPIBasicAuthBackend :: "(string \<Rightarrow> error + string) \<Rightarrow> auth_backend" where
  "WebAPIBasicAuthBackend b64decode =
     \<lparr>www_auth_scheme = Some (''Basic realm='' @ [CHR 0x22] @ ''Web API'' @ [CHR 0x22]),
      get_credentials = basic_get_credentials b64decode\<rparr>"

subsection \<open>The backend chain\<close>

text \<open>
  The loop of \<^verbatim>\<open>get_auth_backends\<close> over the class paths. The list built so far is
  the global itself (it is assigned before the loop and appended to in place), so it is
  returned also when a path fails.
\<close>

fun resolve_class_paths ::
  "importer \<Rightarrow> string list \<Rightarrow> auth_backend list \<Rightarrow> event list
     \<Rightarrow> error option \<times> auth_backend list \<times> event list" where
  "resolve_class_paths imp [] acc ev = (None, acc, ev)"
| "resolve_class_paths imp (class_path # rest) acc ev =
     (let i = rfind CHR ''.'' class_path;
          module = slice_to class_path i;
          attr = slice_from class_path (i + 1);
          ev1 = ev @ [Import module]
      in case imp module of
           Inl (ImportError e) \<Rightarrow>
             (Some (ImproperlyConfigured
                (''Error importing web API auth backend '' @ module @ '': '' @ e)), acc, ev1)
         | Inl err \<Rightarrow> (Some err, acc, ev1)
         | Inr m \<Rightarrow>
             (case m attr of
                None \<Rightarrow>
                  (Some (ImproperlyConfigured
                     (''Module '' @ [CHR 0x22] @ module @ [CHR 0x22] @ '' does not define a ''
                        @ [CHR 0x22] @ attr @ [CHR 0x22]
                        @ '' class for the web API auth backend'')), acc, ev1)
              | Some cls \<Rightarrow> resolve_class_paths imp rest (acc @ [cls]) ev1))"

definition get_auth_backends ::
  "string list option \<Rightarrow> importer \<Rightarrow> world \<Rightarrow> (error + auth_backend list) \<times> world" where
  "get_auth_backends setting imp w =
     (if auth_backends w = [] then
        (let class_paths =
               (case setting of
                  None \<Rightarrow> [''djblets.webapi.auth.WebAPIBasicAuthBackend'']
                | Some paths \<Rightarrow> paths)
         in case resolve_class_paths imp class_paths [] (events w @ [SettingsRead]) of
              (None, bs, ev) \<Rightarrow> (Inr bs, w\<lparr>auth_backends := bs, events := ev\<rparr>)
            | (Some e, bs, ev) \<Rightarrow> (Inl e, w\<lparr>auth_backends := bs, events := ev\<rparr>))
      else (Inr (auth_backends w), w))"

definition reset_auth_backends :: "world \<Rightarrow> world" where
  "reset_auth_backends w = w\<lparr>auth_backends := []\<rparr>"

text \<open>The loop of \<^verbatim>\<open>check_login\<close>; an exception of a backend leaves it.\<close>

fun try_backends ::
  "identity_provider \<Rightarrow> auth_backend list \<Rightarrow> request \<Rightarrow> event list
     \<Rightarrow> (error + auth_result option) \<times> request \<times> event list" where
  "try_backends idp [] req ev = (Inr None, req, ev)"
| "try_backends idp (b # bs) req ev =
     (case authenticate idp b req ev of
        (Inl e, req', ev') \<Rightarrow> (Inl e, req', ev')
      | (Inr (Some res), req', ev') \<Rightarrow> (Inr (Some res), req', ev')
      | (Inr None, req', ev') \<Rightarrow> try_backends idp bs req' ev')"

definition check_login ::
  "string list option \<Rightarrow> importer \<Rightarrow> identity_provider \<Rightarrow> request \<Rightarrow> world
     \<Rightarrow> (error + auth_result option) \<times> request \<times> world" where
  "check_login setting imp idp req w =
     (if META req ''HTTP_AUTHORIZATION'' \<noteq> None then
        (case get_auth_backends setting imp w of
           (Inl e, w') \<Rightarrow> (Inl e, req, w')
         | (Inr bs, w') \<Rightarrow>
             (case try_backends idp bs req (events w') of
                (res, req', ev') \<Rightarrow> (res, req', w'\<lparr>events := ev'\<rparr>)))
      else (Inr None, req, w))"


section \<open>Extension hooks: \<^verbatim>\<open>djblets/extensions/hooks.py\<close>\<close>

subsection \<open>Data\<close>

text \<open>
  Objects are compared by identity: a hook instance and a URL pattern are their object
  identities. A column is identified by its \<^verbatim>\<open>id\<close>. An extension carries the routing
  table of its manager, \<^verbatim>\<open>extension.extension_manager.dynamic_urls\<close>.
\<close>

type_synonym hook_id = nat
type_synonym pattern = nat
type_synonym resolver = nat
type_synonym column = string
type_synonym datagrid = string
type_synonym signal = string
type_synonym callback = string

record extension =
  ext_name :: string
  ext_dynamic_urls :: resolver

text \<open>
  The four classes whose metaclass is \<^verbatim>\<open>ExtensionHookPoint\<close>; each owns one list
  \<^verbatim>\<open>hooks\<close>, shared with its subclasses.
\<close>

datatype hook_point = DataGridColumnsHook | URLHook | SignalHook | TemplateHook

text \<open>
  The attributes a subclass stores on the instance: \<^verbatim>\<open>datagrid_cls, columns\<close>;
  \<^verbatim>\<open>patterns, dynamic_urls\<close>; \<^verbatim>\<open>signal, callback, dispatch_uid\<close>;
  \<^verbatim>\<open>apply_to, name, template_name\<close>.
\<close>

datatype hook_attrs =
    DataGridColumnsAttrs datagrid "column list"
  | URLAttrs "pattern list" resolver
  | SignalAttrs signal callback nat
  | TemplateAttrs "string list" string "string option"

fun hook_point_of :: "hook_attrs \<Rightarrow> hook_point" where
  "hook_point_of (DataGridColumnsAttrs d cs) = DataGridColumnsHook"
| "hook_point_of (URLAttrs ps r) = URLHook"
| "hook_point_of (SignalAttrs sg cb uid) = SignalHook"
| "hook_point_of (TemplateAttrs a n t) = TemplateHook"

record hook =
  hook_extension :: extension
  initialized :: bool
  attrs :: hook_attrs

text \<open>A subscription of the signal bus.\<close>

record receiver =
  recv_uid :: nat
  recv_sender :: "string option"
  recv_callback :: callback

text \<open>
  The process-wide state: the list \<^verbatim>\<open>hooks\<close> of every hook point, the hook objects,
  the set \<^verbatim>\<open>hooks\<close> of every extension, the dictionary \<^verbatim>\<open>TemplateHook._by_name\<close>,
  and the collaborators' state: the routing tables, the subscriptions of every signal
  and the columns of every datagrid class. \<open>next_id\<close> is the identity of the next
  object created and \<open>next_uuid\<close> the next value of \<^verbatim>\<open>uuid.uuid1()\<close>.
\<close>

record hooks_state =
  hooks :: "hook_point \<Rightarrow> hook_id list"
  objects :: "hook_id \<rightharpoonup> hook"
  next_id :: nat
  extension_hooks :: "string \<Rightarrow> hook_id set"
  by_name :: "string \<rightharpoonup> hook_id list"
  dynamic_urls :: "resolver \<Rightarrow> pattern list"
  receivers :: "signal \<Rightarrow> receiver list"
  next_uuid :: nat
  columns :: "datagrid \<Rightarrow> column list"

subsection \<open>Collaborators\<close>

text \<open>
  Modelled from the spec: the routing table (\<^verbatim>\<open>dynamic_urls.add_patterns\<close>,
  \<^verbatim>\<open>remove_patterns\<close>) is not among the sources. Adding appends the patterns in
  order; removing takes out each given pattern by identity and tolerates one that is
  already gone.
\<close>

definition add_patterns :: "resolver \<Rightarrow> pattern list \<Rightarrow> hooks_state \<Rightarrow> hooks_state" where
  "add_patterns r ps s = s\<lparr>dynamic_urls := (dynamic_urls s)(r := dynamic_urls s r @ ps)\<rparr>"

definition remove_patterns :: "resolver \<Rightarrow> pattern list \<Rightarrow> hooks_state \<Rightarrow> hooks_state" where
  "remove_patterns r ps s =
     s\<lparr>dynamic_urls := (dynamic_urls s)(r := fold remove1 ps (dynamic_urls s r))\<rparr>"

text \<open>
  Modelled from the spec: the signal bus (\<^verbatim>\<open>signal.connect\<close>, \<^verbatim>\<open>signal.disconnect\<close>)
  is not among the sources. A subscription is addressed by its token alone;
  unsubscribing a token that is gone is tolerated.
\<close>

definition signal_connect ::
  "signal \<Rightarrow> callback \<Rightarrow> string option \<Rightarrow> nat \<Rightarrow> hooks_state \<Rightarrow> hooks_state" where
  "signal_connect sg cb sender uid s =
     s\<lparr>receivers := (receivers s)(sg := receivers s sg
          @ [\<lparr>recv_uid = uid, recv_sender = sender, recv_callback = cb\<rparr>])\<rparr>"

definition signal_disconnect :: "signal \<Rightarrow> nat \<Rightarrow> hooks_state \<Rightarrow> hooks_state" where
  "signal_disconnect sg uid s =
     s\<lparr>receivers := (receivers s)(sg := filter (\<lambda>r. recv_uid r \<noteq> uid) (receivers s sg))\<rparr>"

text \<open>
  Modelled from the spec: the datagrid class (\<^verbatim>\<open>add_column\<close>, \<^verbatim>\<open>remove_column\<close>)
  is not among the sources. A column whose identifier is already registered for the
  class is a configuration error, raised when it is added; removing a column that is
  gone is tolerated.
\<close>

definition add_column :: "datagrid \<Rightarrow> column \<Rightarrow> hooks_state \<Rightarrow> error option \<times> hooks_state" where
  "add_column d c s =
     (if c \<in> set (columns s d) then (Some (ConfigurationError c), s)
      else (None, s\<lparr>columns := (columns s)(d := columns s d @ [c])\<rparr>))"

definition remove_column :: "datagrid \<Rightarrow> column \<Rightarrow> hooks_state \<Rightarrow> hooks_state" where
  "remove_column d c s = s\<lparr>columns := (columns s)(d := remove1 c (columns s d))\<rparr>"

text \<open>\<^verbatim>\<open>uuid.uuid1()\<close>: a value never returned before.\<close>

definition uuid1 :: "hooks_state \<Rightarrow> nat \<times> hooks_state" where
  "uuid1 s = (next_uuid s, s\<lparr>next_uuid := Suc (next_uuid s)\<rparr>)"

subsection \<open>\<^verbatim>\<open>ExtensionHookPoint\<close> and \<^verbatim>\<open>ExtensionHook\<close>\<close>

definition add_hook :: "hook_point \<Rightarrow> hook_id \<Rightarrow> hooks_state \<Rightarrow> hooks_state" where
  "add_hook cls h s = s\<lparr>hooks := (hooks s)(cls := hooks s cls @ [h])\<rparr>"

text \<open>\<^verbatim>\<open>list.remove\<close> raises \<^verbatim>\<open>ValueError\<close> when the element is absent.\<close>

definition remove_hook :: "hook_point \<Rightarrow> hook_id \<Rightarrow> hooks_state \<Rightarrow> error option \<times> hooks_state" where
  "remove_hook cls h s =
     (if h \<in> set (hooks s cls)
      then (None, s\<lparr>hooks := (hooks s)(cls := remove1 h (hooks s cls))\<rparr>)
      else (Some ValueError, s))"

text \<open>
  \<^verbatim>\<open>ExtensionHook.__init__\<close>, on a new object that carries the attributes its class
  stores: the result is the object's identity.
\<close>

definition ExtensionHook_init ::
  "extension \<Rightarrow> hook_attrs \<Rightarrow> hooks_state \<Rightarrow> hook_id \<times> hooks_state" where
  "ExtensionHook_init ext a s =
     (let h = next_id s;
          s1 = s\<lparr>next_id := Suc h,
                 objects := (objects s)(h \<mapsto>
                    \<lparr>hook_extension = ext, initialized = False, attrs = a\<rparr>)\<rparr>;
          s2 = s1\<lparr>extension_hooks := (extension_hooks s1)(ext_name ext :=
                    insert h (extension_hooks s1 (ext_name ext)))\<rparr>;
          s3 = add_hook (hook_point_of a) h s2
      in (h, s3\<lparr>objects := (objects s3)(h \<mapsto>
                    \<lparr>hook_extension = ext, initialized = True, attrs = a\<rparr>)\<rparr>))"

text \<open>
  \<^verbatim>\<open>ExtensionHook.shutdown\<close>. The result \<open>None\<close> is a normal return; an exception
  leaves the state as it was when it was raised.
\<close>

definition ExtensionHook_shutdown :: "hook_id \<Rightarrow> hooks_state \<Rightarrow> error option \<times> hooks_state" where
  "ExtensionHook_shutdown h s =
     (case objects s h of
        None \<Rightarrow> (Some (OtherError ''no such object''), s)
      | Some obj \<Rightarrow>
          if \<not> initialized obj then (Some AssertionError, s)
          else
            (case remove_hook (hook_point_of (attrs obj)) h s of
               (Some e, s1) \<Rightarrow> (Some e, s1)
             | (None, s1) \<Rightarrow>
                 (None, s1\<lparr>objects := (objects s1)(h \<mapsto> obj\<lparr>initialized := False\<rparr>)\<rparr>)))"

subsection \<open>\<^verbatim>\<open>DataGridColumnsHook\<close>\<close>

fun add_columns :: "datagrid \<Rightarrow> column list \<Rightarrow> hooks_state \<Rightarrow> error option \<times> hooks_state" where
  "add_columns d [] s = (None, s)"
| "add_columns d (c # cs) s =
     (case add_column d c s of
        (Some e, s') \<Rightarrow> (Some e, s')
      | (None, s') \<Rightarrow> add_columns d cs s')"

definition DataGridColumnsHook_init ::
  "extension \<Rightarrow> datagrid \<Rightarrow> column list \<Rightarrow> hooks_state \<Rightarrow> (error + hook_id) \<times> hooks_state" where
  "DataGridColumnsHook_init ext d cs s =
     (case ExtensionHook_init ext (DataGridColumnsAttrs d cs) s of
        (h, s1) \<Rightarrow>
          (case add_columns d cs s1 of
             (Some e, s2) \<Rightarrow> (Inl e, s2)
           | (None, s2) \<Rightarrow> (Inr h, s2)))"

definition DataGridColumnsHook_shutdown ::
  "hook_id \<Rightarrow> datagrid \<Rightarrow> column list \<Rightarrow> hooks_state \<Rightarrow> error option \<times> hooks_state" where
  "DataGridColumnsHook_shutdown h d cs s =
     (case ExtensionHook_shutdown h s of
        (Some e, s1) \<Rightarrow> (Some e, s1)
      | (None, s1) \<Rightarrow> (None, fold (remove_column d) cs s1))"

subsection \<open>\<^verbatim>\<open>URLHook\<close>\<close>

definition URLHook_init ::
  "extension \<Rightarrow> pattern list \<Rightarrow> hooks_state \<Rightarrow> (error + hook_id) \<times> hooks_state" where
  "URLHook_init ext ps s =
     (case ExtensionHook_init ext (URLAttrs ps (ext_dynamic_urls ext)) s of
        (h, s1) \<Rightarrow> (Inr h, add_patterns (ext_dynamic_urls ext) ps s1))"

definition URLHook_shutdown ::
  "hook_id \<Rightarrow> pattern list \<Rightarrow> resolver \<Rightarrow> hooks_state \<Rightarrow> error option \<times> hooks_state" where
  "URLHook_shutdown h ps r s =
     (case ExtensionHook_shutdown h s of
        (Some e, s1) \<Rightarrow> (Some e, s1)
      | (None, s1) \<Rightarrow> (None, remove_patterns r ps s1))"

subsection \<open>\<^verbatim>\<open>SignalHook\<close>\<close>

text \<open>
  The token is drawn before the object is made, so that the object carries it from the
  start; the source draws it right after \<^verbatim>\<open>ExtensionHook.__init__\<close>, which neither
  reads nor changes the generator.
\<close>

definition SignalHook_init ::
  "extension \<Rightarrow> signal \<Rightarrow> callback \<Rightarrow> string option \<Rightarrow> hooks_state
     \<Rightarrow> (error + hook_id) \<times> hooks_state" where
  "SignalHook_init ext sg cb sender s =
     (case uuid1 s of
        (uid, s0) \<Rightarrow>
          (case ExtensionHook_init ext (SignalAttrs sg cb uid) s0 of
             (h, s1) \<Rightarrow> (Inr h, signal_connect sg cb sender uid s1)))"

definition SignalHook_shutdown ::
  "hook_id \<Rightarrow> signal \<Rightarrow> nat \<Rightarrow> hooks_state \<Rightarrow> error option \<times> hooks_state" where
  "SignalHook_shutdown h sg uid s =
     (case ExtensionHook_shutdown h s of
        (Some e, s1) \<Rightarrow> (Some e, s1)
      | (None, s1) \<Rightarrow> (None, signal_disconnect sg uid s1))"

subsection \<open>\<^verbatim>\<open>TemplateHook\<close>\<close>

definition TemplateHook_init ::
  "extension \<Rightarrow> string \<Rightarrow> string option \<Rightarrow> string list \<Rightarrow> hooks_state
     \<Rightarrow> (error + hook_id) \<times> hooks_state" where
  "TemplateHook_init ext name template_name apply_to s =
     (case ExtensionHook_init ext (TemplateAttrs apply_to name template_name) s of
        (h, s1) \<Rightarrow>
          (Inr h,
           (case by_name s1 name of
              None \<Rightarrow> s1\<lparr>by_name := (by_name s1)(name \<mapsto> [h])\<rparr>
            | Some l \<Rightarrow> s1\<lparr>by_name := (by_name s1)(name \<mapsto> l @ [h])\<rparr>)))"

definition TemplateHook_shutdown ::
  "hook_id \<Rightarrow> string \<Rightarrow> hooks_state \<Rightarrow> error option \<times> hooks_state" where
  "TemplateHook_shutdown h name s =
     (case ExtensionHook_shutdown h s of
        (Some e, s1) \<Rightarrow> (Some e, s1)
      | (None, s1) \<Rightarrow>
          (case by_name s1 name of
             None \<Rightarrow> (Some KeyError, s1)
           | Some l \<Rightarrow>
               if h \<in> set l then (None, s1\<lparr>by_name := (by_name s1)(name \<mapsto> remove1 h l)\<rparr>)
               else (Some ValueError, s1)))"

definition TemplateHook_by_name :: "hooks_state \<Rightarrow> string \<Rightarrow> hook_id list" where
  "TemplateHook_by_name s name = (case by_name s name of None \<Rightarrow> [] | Some l \<Rightarrow> l)"

text \<open>\<^verbatim>\<open>AppliesToURLMixin.applies_to\<close>, on the URL name the request resolved to.\<close>

definition applies_to :: "string list \<Rightarrow> string \<Rightarrow> bool" where
  "applies_to apply_to url_name = (apply_to = [] \<or> url_name \<in> set apply_to)"

text \<open>The method \<^verbatim>\<open>shutdown\<close> of an object, by its class.\<close>

definition shutdown :: "hook_id \<Rightarrow> hooks_state \<Rightarrow> error option \<times> hooks_state" where
  "shutdown h s =
     (case objects s h of
        None \<Rightarrow> (Some (OtherError ''no such object''), s)
      | Some obj \<Rightarrow>
          (case attrs obj of
             DataGridColumnsAttrs d cs \<Rightarrow> DataGridColumnsHook_shutdown h d cs s
           | URLAttrs ps r \<Rightarrow> URLHook_shutdown h ps r s
           | SignalAttrs sg cb uid \<Rightarrow> SignalHook_shutdown h sg uid s
           | TemplateAttrs a n t \<Rightarrow> TemplateHook_shutdown h n s))"


subsection \<open>\<^verbatim>\<open>TemplateHook.render_to_string\<close>\<close>

text \<open>
  Modelled from the spec: the template context is not among the sources. It is a stack
  of scopes of key-value bindings over a bottom scope that is never popped; \<open>push\<close>
  opens an empty scope, an assignment binds in the topmost scope, and \<open>pop\<close> closes the
  topmost scope, raising when only the bottom one is left. The pushed scopes are listed
  topmost first.
\<close>

datatype context_value = ExtensionValue extension | TextValue string

datatype render_context = Context "string \<rightharpoonup> context_value" "(string \<rightharpoonup> context_value) list"

fun context_push :: "render_context \<Rightarrow> render_context" where
  "context_push (Context b ss) = Context b (Map.empty # ss)"

fun context_setitem :: "render_context \<Rightarrow> string \<Rightarrow> context_value \<Rightarrow> render_context" where
  "context_setitem (Context b []) k v = Context (b(k \<mapsto> v)) []"
| "context_setitem (Context b (t # ss)) k v = Context b (t(k \<mapsto> v) # ss)"

fun context_pop :: "render_context \<Rightarrow> error + render_context" where
  "context_pop (Context b []) = Inl ContextPopException"
| "context_pop (Context b (t # ss)) = Inr (Context b ss)"

fun lookup_scopes :: "(string \<rightharpoonup> context_value) list \<Rightarrow> string \<Rightarrow> context_value option" where
  "lookup_scopes [] k = None"
| "lookup_scopes (t # ss) k = (case t k of Some v \<Rightarrow> Some v | None \<Rightarrow> lookup_scopes ss k)"

fun context_getitem :: "render_context \<Rightarrow> string \<Rightarrow> context_value option" where
  "context_getitem (Context b ss) k =
     (case lookup_scopes ss k of Some v \<Rightarrow> Some v | None \<Rightarrow> b k)"

text \<open>
  The template engine's \<^verbatim>\<open>render_to_string\<close> is a parameter: given the template name
  and the context, it returns the text or raises, and may change the context.
\<close>

type_synonym renderer = "string option \<Rightarrow> render_context \<Rightarrow> (error + string) \<times> render_context"

text \<open>
  The method, on the attributes \<^verbatim>\<open>extension\<close> and \<^verbatim>\<open>template_name\<close> of the hook; its
  argument \<^verbatim>\<open>request\<close> is not used by the body. The \<^verbatim>\<open>finally\<close> clause runs on both
  paths, and an exception of \<^verbatim>\<open>context.pop()\<close> replaces the outcome of the body.
\<close>

definition render_to_string ::
  "renderer \<Rightarrow> extension \<Rightarrow> string option \<Rightarrow> render_context \<Rightarrow> (error + string) \<times> render_context" where
  "render_to_string render ext template_name ctx =
     (let c1 = context_push ctx;
          c2 = context_setitem c1 ''extension'' (ExtensionValue ext)
      in case render template_name c2 of
           (res, c3) \<Rightarrow>
             (case context_pop c3 of
                Inl e \<Rightarrow> (Inl e, c3)
              | Inr c4 \<Rightarrow> (res, c4)))"

subsection \<open>Sequences of attaches and detaches\<close>

text \<open>
  What an extension does to the registry: it creates hooks and shuts them down. A
  sequence runs until an operation raises; the exception goes to the host.
\<close>

datatype op =
    NewDataGridColumnsHook extension datagrid "column list"
  | NewURLHook extension "pattern list"
  | NewSignalHook extension signal callback "string option"
  | NewTemplateHook extension string "string option" "string list"
  | Shutdown hook_id

fun create :: "op \<Rightarrow> hooks_state \<Rightarrow> (error + hook_id) \<times> hooks_state" where
  "create (NewDataGridColumnsHook ext d cs) s = DataGridColumnsHook_init ext d cs s"
| "create (NewURLHook ext ps) s = URLHook_init ext ps s"
| "create (NewSignalHook ext sg cb sender) s = SignalHook_init ext sg cb sender s"
| "create (NewTemplateHook ext name template_name apply_to) s =
     TemplateHook_init ext name template_name apply_to s"
| "create (Shutdown h) s =
     (case shutdown h s of
        (Some e, s') \<Rightarrow> (Inl e, s')
      | (None, s') \<Rightarrow> (Inr h, s'))"

fun run :: "op list \<Rightarrow> hooks_state \<Rightarrow> error + hooks_state" where
  "run [] s = Inr s"
| "run (x # xs) s =
     (case create x s of
        (Inl e, s') \<Rightarrow> Inl e
      | (Inr h, s') \<Rightarrow> run xs s')"

text \<open>
  The state when the process starts: no hook exists, no subscription has been made, and
  the routing tables and the datagrid classes hold what the host gave them.
\<close>

definition process_start ::
  "(resolver \<Rightarrow> pattern list) \<Rightarrow> (datagrid \<Rightarrow> column list) \<Rightarrow> hooks_state" where
  "process_start routes cols =
     \<lparr>hooks = (\<lambda>cls. []), objects = Map.empty, next_id = 0,
      extension_hooks = (\<lambda>e. {}), by_name = Map.empty,
      dynamic_urls = routes, receivers = (\<lambda>sg. []), next_uuid = 0, columns = cols\<rparr>"

section \<open>Vocabulary of the properties\<close>

text \<open>
  The two conditions of \<^verbatim>\<open>login_with_credentials\<close>: the session is authenticated as
  the given user name; the identity provider returns no user, or an inactive one.
\<close>

definition session_matches :: "request \<Rightarrow> string \<Rightarrow> bool" where
  "session_matches req username =
     (case request_user req of None \<Rightarrow> False | Some u \<Rightarrow> user_name u = username)"

definition rejected :: "identity_provider \<Rightarrow> string \<Rightarrow> string \<Rightarrow> bool" where
  "rejected idp username password =
     (case idp username password of None \<Rightarrow> True | Some u \<Rightarrow> \<not> is_active u)"

text \<open>Successive calls of \<^verbatim>\<open>get_auth_backends\<close>, the configuration free to change between them.\<close>

fun repeated_reads ::
  "(string list option \<times> importer) list \<Rightarrow> world \<Rightarrow> (error + auth_backend list) list \<times> world" where
  "repeated_reads [] w = ([], w)"
| "repeated_reads ((setting, imp) # cfgs) w =
     (case get_auth_backends setting imp w of
        (r, w') \<Rightarrow> (case repeated_reads cfgs w' of (rs, w'') \<Rightarrow> (r # rs, w'')))"

subsection \<open>Concrete collaborators\<close>

text \<open>
  A codec that knows three encodings, a second backend for the scheme \<^verbatim>\<open>Token\<close>, an
  importer that knows two modules and an identity provider with one active and one
  inactive user.
\<close>

definition demo_b64decode :: "string \<Rightarrow> error + string" where
  "demo_b64decode s =
     (if s = ''YWxpY2U6c2VjcmV0'' then Inr ''alice:secret''
      else if s = ''YWxpY2U6c3RhbGU='' then Inr ''alice:stale''
      else if s = ''Ym9iOmh1bnRlcjI='' then Inr ''bob:hunter2''
      else Inl (OtherError ''binascii.Error''))"

definition TokenBackend :: auth_backend where
  "TokenBackend =
     \<lparr>www_auth_scheme = Some ''Token'',
      get_credentials = (\<lambda>req.
        case META req ''HTTP_AUTHORIZATION'' of
          None \<Rightarrow> Inl KeyError
        | Some header \<Rightarrow>
            (case split_sep CHR '' '' header of
               [realm, token] \<Rightarrow>
                 if realm = ''Token'' then Inr (CredTuple (token = ''t0ken'', None, None))
                 else Inr CredNone
             | _ \<Rightarrow> Inr CredNone))\<rparr>"

definition demo_importer :: importer where
  "demo_importer module =
     (if module = ''djblets.webapi.auth''
      then Inr [''WebAPIBasicAuthBackend'' \<mapsto> WebAPIBasicAuthBackend demo_b64decode]
      else if module = ''ext.auth''
      then Inr [''TokenBackend'' \<mapsto> TokenBackend]
      else Inl (ImportError (''No module named '' @ module)))"

definition demo_idp :: identity_provider where
  "demo_idp username password =
     (if username = ''alice'' \<and> password = ''secret''
      then Some \<lparr>user_name = ''alice'', is_active = True\<rparr>
      else if username = ''bob'' \<and> password = ''hunter2''
      then Some \<lparr>user_name = ''bob'', is_active = False\<rparr>
      else None)"

definition world0 :: world where
  "world0 = \<lparr>auth_backends = [], events = []\<rparr>"

definition basic_request :: "string \<Rightarrow> user option \<Rightarrow> request" where
  "basic_request header u = \<lparr>META = [''HTTP_AUTHORIZATION'' \<mapsto> header], request_user = u\<rparr>"

definition alice :: user where
  "alice = \<lparr>user_name = ''alice'', is_active = True\<rparr>"

definition cached_world :: world where
  "cached_world =
     \<lparr>auth_backends = [TokenBackend, WebAPIBasicAuthBackend demo_b64decode], events = []\<rparr>"

subsection \<open>Vocabulary of the hook properties\<close>





text \<open>Template hooks created one after the other under one name: their identities, in order.\<close>

fun attach_templates ::
  "(extension \<times> string option \<times> string list) list \<Rightarrow> string \<Rightarrow> hooks_state
     \<Rightarrow> hook_id list \<times> hooks_state" where
  "attach_templates [] name s = ([], s)"
| "attach_templates ((ext, template_name, apply_to) # rest) name s =
     (case TemplateHook_init ext name template_name apply_to s of
        (Inl e, s1) \<Rightarrow> ([], s1)
      | (Inr h, s1) \<Rightarrow>
          (case attach_templates rest name s1 of (hs, s2) \<Rightarrow> (h # hs, s2)))"

subsection \<open>Concrete hooks\<close>

text \<open>
  An extension, and a process that starts with one route in the routing table of its
  manager and one built-in column in a datagrid class.
\<close>

definition demo_ext :: extension where
  "demo_ext = \<lparr>ext_name = ''demo'', ext_dynamic_urls = 0\<rparr>"

definition demo_start :: hooks_state where
  "demo_start =
     process_start (\<lambda>r. if r = 0 then [7] else [])
       (\<lambda>d. if d = ''ReviewGrid'' then [''summary''] else [])"

definition demo_url_state :: hooks_state where
  "demo_url_state = snd (URLHook_init demo_ext [10, 20] demo_start)"

definition demo_render :: renderer where
  "demo_render template_name c =
     (if template_name = Some ''broken.html''
      then (Inl (OtherError ''TemplateSyntaxError''),
            context_setitem c ''forloop'' (TextValue ''1''))
      else (Inr ''<li>demo</li>'', context_setitem c ''title'' (TextValue ''Demo'')))"

definition demo_context :: render_context where
  "demo_context = Context [''user'' \<mapsto> TextValue ''alice''] [[''title'' \<mapsto> TextValue ''Home'']]"

definition demo_template_args :: "(extension \<times> string option \<times> string list) list" where
  "demo_template_args =
     [(demo_ext, Some ''a.html'', []), (demo_ext, Some ''b.html'', [''page-a'']),
      (demo_ext, None, [])]"

definition demo_templates_state :: hooks_state where
  "demo_templates_state = snd (attach_templates demo_template_args ''sidebar'' demo_url_state)"





section \<open>Invariants of the hook registry\<close>

text \<open>
  What holds of every state that a sequence of operations reaches from the start of the
  process. The registry: no hook point lists an instance twice, an instance is listed
  by its class exactly when it exists and is initialized, and every identity in use is
  below the next one.
\<close>

definition registry_ok :: "hooks_state \<Rightarrow> bool" where
  "registry_ok s \<longleftrightarrow>
     (\<forall>cls. distinct (hooks s cls))
     \<and> (\<forall>cls h. h \<in> set (hooks s cls) \<longleftrightarrow>
           (\<exists>obj. objects s h = Some obj \<and> initialized obj
                  \<and> hook_point_of (attrs obj) = cls))
     \<and> (\<forall>h obj. objects s h = Some obj \<longrightarrow> h < next_id s)"

text \<open>The patterns an instance holds for a routing table, and the columns it holds for a datagrid class.\<close>

definition url_part :: "hooks_state \<Rightarrow> resolver \<Rightarrow> hook_id \<Rightarrow> pattern multiset" where
  "url_part s r h =
     (case objects s h of
        None \<Rightarrow> {#}
      | Some obj \<Rightarrow>
          (case attrs obj of
             URLAttrs ps r' \<Rightarrow> if r' = r then mset ps else {#}
           | _ \<Rightarrow> {#}))"

definition column_part :: "hooks_state \<Rightarrow> datagrid \<Rightarrow> hook_id \<Rightarrow> column multiset" where
  "column_part s d h =
     (case objects s h of
        None \<Rightarrow> {#}
      | Some obj \<Rightarrow>
          (case attrs obj of
             DataGridColumnsAttrs d' cs \<Rightarrow> if d' = d then mset cs else {#}
           | _ \<Rightarrow> {#}))"

definition template_named :: "hooks_state \<Rightarrow> string \<Rightarrow> hook_id \<Rightarrow> bool" where
  "template_named s n h =
     (case objects s h of
        None \<Rightarrow> False
      | Some obj \<Rightarrow>
          (case attrs obj of
             TemplateAttrs a n' t \<Rightarrow> n' = n
           | _ \<Rightarrow> False))"

text \<open>
  The collaborators hold at least what the registered instances gave them: the patterns
  of the registered URL hooks are in their routing tables and the columns of the
  registered column hooks in their datagrid classes, as many times as they were given.
\<close>

definition routes_ok :: "hooks_state \<Rightarrow> bool" where
  "routes_ok s \<longleftrightarrow>
     (\<forall>r. sum_list (map (url_part s r) (hooks s URLHook)) \<subseteq># mset (dynamic_urls s r))"

definition columns_ok :: "hooks_state \<Rightarrow> bool" where
  "columns_ok s \<longleftrightarrow>
     (\<forall>d. sum_list (map (column_part s d) (hooks s DataGridColumnsHook))
            \<subseteq># mset (columns s d))"

text \<open>
  The subscriptions: every token in use is below the next one, no signal has two
  subscriptions with one token, no two hook objects share a token, and the token of
  every registered signal hook is subscribed to its signal.
\<close>

definition signals_ok :: "hooks_state \<Rightarrow> bool" where
  "signals_ok s \<longleftrightarrow>
     (\<forall>sg x. x \<in> set (receivers s sg) \<longrightarrow> recv_uid x < next_uuid s)
     \<and> (\<forall>sg. distinct (map recv_uid (receivers s sg)))
     \<and> (\<forall>h obj sg cb uid. objects s h = Some obj \<and> attrs obj = SignalAttrs sg cb uid
           \<longrightarrow> uid < next_uuid s)
     \<and> (\<forall>h h' obj obj' sg cb sg' cb' uid.
           objects s h = Some obj \<and> attrs obj = SignalAttrs sg cb uid
           \<and> objects s h' = Some obj' \<and> attrs obj' = SignalAttrs sg' cb' uid
           \<longrightarrow> h = h')
     \<and> (\<forall>h obj sg cb uid. objects s h = Some obj \<and> initialized obj
           \<and> attrs obj = SignalAttrs sg cb uid
           \<longrightarrow> uid \<in> recv_uid ` set (receivers s sg))"

text \<open>The list of a name in \<^verbatim>\<open>_by_name\<close> is the registered template hooks of that name, in the order of the registry.\<close>

definition by_name_ok :: "hooks_state \<Rightarrow> bool" where
  "by_name_ok s \<longleftrightarrow>
     (\<forall>n. TemplateHook_by_name s n = filter (template_named s n) (hooks s TemplateHook))"

definition invariant :: "hooks_state \<Rightarrow> bool" where
  "invariant s \<longleftrightarrow> registry_ok s \<and> routes_ok s \<and> columns_ok s \<and> signals_ok s \<and> by_name_ok s"

section \<open>Properties of the authentication chain\<close>

subsection \<open>Building and caching the chain\<close>

lemma rfind_default: "rfind CHR ''.'' ''djblets.webapi.auth.WebAPIBasicAuthBackend'' = 19"
  by (simp add: rfind_def)

lemma default_module:
  "slice_to ''djblets.webapi.auth.WebAPIBasicAuthBackend'' 19 = ''djblets.webapi.auth''"
  by (simp add: slice_to_def)

lemma default_attr:
  "slice_from ''djblets.webapi.auth.WebAPIBasicAuthBackend'' 20 = ''WebAPIBasicAuthBackend''"
  by (simp add: slice_from_def)

lemma get_auth_backends_empty_setting:
  "auth_backends w = [] \<Longrightarrow>
   get_auth_backends (Some []) imp w =
     (Inr [], w\<lparr>auth_backends := [], events := events w @ [SettingsRead]\<rparr>)"
  by (simp add: get_auth_backends_def)

lemma get_auth_backends_absent_setting:
  assumes "auth_backends w = []" "imp ''djblets.webapi.auth'' = Inr m"
    "m ''WebAPIBasicAuthBackend'' = Some cls"
  shows "get_auth_backends None imp w =
    (Inr [cls], w\<lparr>auth_backends := [cls],
                  events := events w @ [SettingsRead, Import ''djblets.webapi.auth'']\<rparr>)"
  using assms by (simp add: get_auth_backends_def rfind_default default_module default_attr)

lemma get_auth_backends_cached:
  "auth_backends w \<noteq> [] \<Longrightarrow> get_auth_backends setting imp w = (Inr (auth_backends w), w)"
  by (simp add: get_auth_backends_def)

lemma get_auth_backends_built:
  assumes "get_auth_backends setting imp w = (Inr bs, w1)"
  shows "auth_backends w1 = bs"
  using assms
  by (auto simp: get_auth_backends_def split: if_splits prod.splits option.splits)

lemma resolve_class_paths_events:
  "resolve_class_paths imp ps acc ev = (r, bs, ev') \<Longrightarrow>
   count_list ev' SettingsRead = count_list ev SettingsRead"
proof (induction ps arbitrary: acc ev)
  case Nil
  then show ?case by simp
next
  case (Cons p ps)
  then show ?case
    by (auto simp: Let_def split: sum.splits error.splits option.splits)
qed

lemma repeated_reads_cached:
  "auth_backends w \<noteq> [] \<Longrightarrow>
   repeated_reads cfgs w = (replicate (length cfgs) (Inr (auth_backends w)), w)"
  by (induction cfgs) (auto simp: get_auth_backends_cached)

lemma reset_funpow: "0 < n \<Longrightarrow> (reset_auth_backends ^^ n) w = reset_auth_backends w"
proof (induction n)
  case 0
  then show ?case by simp
next
  case (Suc n)
  then show ?case by (cases n) (simp_all add: reset_auth_backends_def)
qed

lemma get_after_reset_reads_once:
  "count_list (events (snd (get_auth_backends setting imp (reset_auth_backends w)))) SettingsRead
     = Suc (count_list (events w) SettingsRead)"
proof -
  obtain r bs ev where res: "resolve_class_paths imp
      (case setting of None \<Rightarrow> [''djblets.webapi.auth.WebAPIBasicAuthBackend'']
         | Some paths \<Rightarrow> paths)
      [] (events w @ [SettingsRead]) = (r, bs, ev)"
    by (metis prod_cases3)
  from resolve_class_paths_events [OF res]
  have "count_list ev SettingsRead = Suc (count_list (events w) SettingsRead)" by simp
  with res show ?thesis
    by (cases r) (simp_all add: get_auth_backends_def reset_auth_backends_def)
qed

text \<open>
  Claim C1, as amended. When the setting \<^verbatim>\<open>WEB_API_AUTH_BACKENDS\<close> is absent and the
  chain is not built, \<^verbatim>\<open>get_auth_backends\<close> returns the one-element list of the
  built-in basic-auth backend; when the setting is the empty list, it returns the empty
  list. The default is the fallback of \<^verbatim>\<open>getattr\<close>, which an explicit value, empty or
  not, overrides.
\<close>

theorem get_auth_backends_default:
  assumes "auth_backends w = []"
    and "imp ''djblets.webapi.auth'' = Inr m"
    and "m ''WebAPIBasicAuthBackend'' = Some cls"
  shows "fst (get_auth_backends None imp w) = Inr [cls]
         \<and> fst (get_auth_backends (Some []) imp w) = Inr []"
  using assms
  by (simp add: get_auth_backends_absent_setting get_auth_backends_empty_setting)

text \<open>The theorem at the importer that knows the module, on a fresh process.\<close>

theorem get_auth_backends_default_witness:
  "auth_backends world0 = []
   \<and> fst (get_auth_backends None demo_importer world0)
       = Inr [WebAPIBasicAuthBackend demo_b64decode]
   \<and> fst (get_auth_backends (Some []) demo_importer world0) = Inr []"
  using get_auth_backends_default [of world0 demo_importer
      "[''WebAPIBasicAuthBackend'' \<mapsto> WebAPIBasicAuthBackend demo_b64decode]"
      "WebAPIBasicAuthBackend demo_b64decode"]
  by (simp add: world0_def demo_importer_def)

text \<open>
  Claim C1 as stated fails: with the setting \<^verbatim>\<open>[]\<close> the result is the empty list and
  not the list of the default backend.
\<close>

theorem get_auth_backends_empty_list_counterexample:
  "fst (get_auth_backends (Some []) demo_importer world0) = Inr []
   \<and> fst (get_auth_backends (Some []) demo_importer world0)
       \<noteq> Inr [WebAPIBasicAuthBackend demo_b64decode]"
  by (simp add: get_auth_backends_empty_setting world0_def)

text \<open>
  Claim C2, as amended. Once a call of \<^verbatim>\<open>get_auth_backends\<close> has built a chain that
  is not empty, every later call returns that chain and leaves the state as it is, so
  that neither the setting is read nor a module imported, whatever the configuration
  has become. One reset or several in a row leave the same state, and the call that
  follows them reads the setting exactly once.
\<close>

theorem get_auth_backends_cache:
  assumes "get_auth_backends setting imp w = (Inr bs, w1)"
    and "bs \<noteq> []"
    and "0 < n"
  shows "repeated_reads cfgs w1 = (replicate (length cfgs) (Inr bs), w1)
         \<and> (reset_auth_backends ^^ n) w1 = reset_auth_backends w1
         \<and> count_list (events (snd (get_auth_backends setting' imp'
               ((reset_auth_backends ^^ n) w1)))) SettingsRead
             = Suc (count_list (events w1) SettingsRead)"
  using assms get_auth_backends_built [OF assms(1)]
  by (simp add: repeated_reads_cached reset_funpow get_after_reset_reads_once)

text \<open>
  The theorem on a fresh process with the default configuration: two later reads, the
  second under an empty setting, and two resets.
\<close>

theorem get_auth_backends_cache_witness:
  "repeated_reads [(None, demo_importer), (Some [], demo_importer)]
       \<lparr>auth_backends = [WebAPIBasicAuthBackend demo_b64decode],
        events = [SettingsRead, Import ''djblets.webapi.auth'']\<rparr>
     = ([Inr [WebAPIBasicAuthBackend demo_b64decode],
         Inr [WebAPIBasicAuthBackend demo_b64decode]],
        \<lparr>auth_backends = [WebAPIBasicAuthBackend demo_b64decode],
         events = [SettingsRead, Import ''djblets.webapi.auth'']\<rparr>)
   \<and> count_list (events (snd (get_auth_backends None demo_importer
         ((reset_auth_backends ^^ 2)
            \<lparr>auth_backends = [WebAPIBasicAuthBackend demo_b64decode],
             events = [SettingsRead, Import ''djblets.webapi.auth'']\<rparr>)))) SettingsRead
       = 2"
proof -
  have built: "get_auth_backends None demo_importer world0
      = (Inr [WebAPIBasicAuthBackend demo_b64decode],
         \<lparr>auth_backends = [WebAPIBasicAuthBackend demo_b64decode],
          events = [SettingsRead, Import ''djblets.webapi.auth'']\<rparr>)"
    using get_auth_backends_absent_setting [of world0 demo_importer
        "[''WebAPIBasicAuthBackend'' \<mapsto> WebAPIBasicAuthBackend demo_b64decode]"
        "WebAPIBasicAuthBackend demo_b64decode"]
    by (simp add: world0_def demo_importer_def)
  have ne: "[WebAPIBasicAuthBackend demo_b64decode] \<noteq> []" by simp
  have pos: "0 < (2::nat)" by simp
  from get_auth_backends_cache [OF built ne pos,
      of "[(None, demo_importer), (Some [], demo_importer)]" None demo_importer]
  show ?thesis
    by (simp add: numeral_2_eq_2 reset_auth_backends_def)
qed

text \<open>
  Claim C2 as stated fails for the empty configuration: the chain built is the empty
  list, which is also the mark of an unbuilt chain, so the next call, with no reset in
  between, reads the setting again and returns what the configuration has become.
\<close>

theorem get_auth_backends_rebuilds_empty_chain_counterexample:
  "fst (get_auth_backends (Some []) demo_importer world0) = Inr []
   \<and> events (snd (get_auth_backends (Some []) demo_importer
         (snd (get_auth_backends (Some []) demo_importer world0))))
       = [SettingsRead, SettingsRead]
   \<and> fst (get_auth_backends None demo_importer
         (snd (get_auth_backends (Some []) demo_importer world0)))
       = Inr [WebAPIBasicAuthBackend demo_b64decode]"
  by (simp add: get_auth_backends_empty_setting get_auth_backends_absent_setting
      world0_def demo_importer_def)

subsection \<open>Trying the backends\<close>








text \<open>
  Claim C10. A request without the key \<^verbatim>\<open>HTTP_AUTHORIZATION\<close> gets \<^verbatim>\<open>None\<close> from
  \<^verbatim>\<open>check_login\<close>, and the request, the cached chain and the trace are unchanged: the
  chain is neither built nor read and no backend runs.
\<close>

theorem check_login_no_header:
  assumes "META req ''HTTP_AUTHORIZATION'' = None"
  shows "check_login setting imp idp req w = (Inr None, req, w)"
  using assms by (simp add: check_login_def)

text \<open>The theorem on a request with an empty header table, on a fresh process.\<close>

theorem check_login_no_header_witness:
  "check_login None demo_importer demo_idp \<lparr>META = Map.empty, request_user = None\<rparr> world0
     = (Inr None, \<lparr>META = Map.empty, request_user = None\<rparr>, world0)"
  using check_login_no_header [of "\<lparr>META = Map.empty, request_user = None\<rparr>" None
      demo_importer demo_idp world0]
  by simp

subsection \<open>Logging in with credentials\<close>

text \<open>
  Claim C4. When the session is authenticated and its user name is the one supplied,
  \<^verbatim>\<open>login_with_credentials\<close> returns \<^verbatim>\<open>(True, None, None)\<close> and leaves the request
  and the trace unchanged: the identity provider is not called, whatever the password.
\<close>

theorem login_with_credentials_short_circuit:
  assumes "request_user req = Some u"
    and "user_name u = username"
  shows "login_with_credentials idp req username password ev = ((True, None, None), req, ev)"
  using assms by (simp add: login_with_credentials_def)

text \<open>The theorem on a session of alice and a password the identity provider rejects.\<close>

theorem login_with_credentials_short_circuit_witness:
  "rejected demo_idp ''alice'' ''stale''
   \<and> login_with_credentials demo_idp (basic_request ''Basic YWxpY2U6c3RhbGU='' (Some alice))
        ''alice'' ''stale'' []
     = ((True, None, None), basic_request ''Basic YWxpY2U6c3RhbGU='' (Some alice), [])"
  using login_with_credentials_short_circuit
    [of "basic_request ''Basic YWxpY2U6c3RhbGU='' (Some alice)" alice "''alice''" demo_idp
        "''stale''" "[]"]
  by (simp add: basic_request_def alice_def rejected_def demo_idp_def)

text \<open>
  Claim C8, as amended. When the identity provider rejects the credentials, or the user
  it returns is inactive, and the session is not already authenticated as the supplied
  user name, \<^verbatim>\<open>login_with_credentials\<close> calls the identity provider once, clears the
  session and returns \<^verbatim>\<open>(False, None, None)\<close> as a value.
\<close>

theorem login_with_credentials_rejected:
  assumes "rejected idp username password"
    and "\<not> session_matches req username"
  shows "login_with_credentials idp req username password ev
     = ((False, None, None), req\<lparr>request_user := None\<rparr>,
        ev @ [Validate username password, ClearSession])"
  using assms
  by (auto simp: login_with_credentials_def rejected_def session_matches_def
      split: option.splits)

text \<open>The theorem on a session of alice and the credentials of bob, who is inactive.\<close>

theorem login_with_credentials_rejected_witness:
  "rejected demo_idp ''bob'' ''hunter2''
   \<and> \<not> session_matches (basic_request ''Basic Ym9iOmh1bnRlcjI='' (Some alice)) ''bob''
   \<and> login_with_credentials demo_idp (basic_request ''Basic Ym9iOmh1bnRlcjI='' (Some alice))
        ''bob'' ''hunter2'' []
     = ((False, None, None), basic_request ''Basic Ym9iOmh1bnRlcjI='' None,
        [Validate ''bob'' ''hunter2'', ClearSession])"
  using login_with_credentials_rejected
    [of demo_idp "''bob''" "''hunter2''" "basic_request ''Basic Ym9iOmh1bnRlcjI='' (Some alice)" "[]"]
  by (simp add: basic_request_def alice_def rejected_def demo_idp_def session_matches_def)

text \<open>
  Claim C8 as stated fails when the session already belongs to the supplied user name:
  credentials that the identity provider rejects then yield \<^verbatim>\<open>(True, None, None)\<close>,
  and the session is kept.
\<close>

theorem login_with_credentials_rejected_counterexample:
  "rejected demo_idp ''alice'' ''stale''
   \<and> fst (login_with_credentials demo_idp (basic_request ''Basic YWxpY2U6c3RhbGU='' (Some alice))
        ''alice'' ''stale'' []) = (True, None, None)
   \<and> request_user (fst (snd (login_with_credentials demo_idp
        (basic_request ''Basic YWxpY2U6c3RhbGU='' (Some alice)) ''alice'' ''stale'' [])))
       = Some alice"
  by (simp add: login_with_credentials_def basic_request_def alice_def rejected_def demo_idp_def)

section \<open>Properties of the hook registry\<close>

subsection \<open>The base class keeps the invariants\<close>

lemma ExtensionHook_init_eq:
  "ExtensionHook_init ext a s =
     (next_id s,
      s\<lparr>next_id := Suc (next_id s),
        objects := (objects s)(next_id s \<mapsto>
           \<lparr>hook_extension = ext, initialized = True, attrs = a\<rparr>),
        extension_hooks := (extension_hooks s)(ext_name ext :=
           insert (next_id s) (extension_hooks s (ext_name ext))),
        hooks := (hooks s)(hook_point_of a := hooks s (hook_point_of a) @ [next_id s])\<rparr>)"
  by (simp add: ExtensionHook_init_def add_hook_def Let_def)

lemma registry_ok_member:
  "registry_ok s \<Longrightarrow> h \<in> set (hooks s cls) \<Longrightarrow>
   \<exists>obj. objects s h = Some obj \<and> initialized obj \<and> hook_point_of (attrs obj) = cls"
  by (simp add: registry_ok_def)

lemma registry_ok_live:
  "registry_ok s \<Longrightarrow> objects s h = Some obj \<Longrightarrow> initialized obj \<Longrightarrow>
   h \<in> set (hooks s (hook_point_of (attrs obj)))"
  by (auto simp: registry_ok_def)

lemma registry_ok_fresh:
  "registry_ok s \<Longrightarrow> objects s (next_id s) = None"
  by (force simp: registry_ok_def)

lemma registry_ok_fresh_hooks:
  "registry_ok s \<Longrightarrow> next_id s \<notin> set (hooks s cls)"
  using registry_ok_member registry_ok_fresh by fastforce

lemma ExtensionHook_shutdown_eq:
  assumes "registry_ok s" "objects s h = Some obj" "initialized obj"
  shows "ExtensionHook_shutdown h s =
     (None,
      s\<lparr>hooks := (hooks s)(hook_point_of (attrs obj) :=
            remove1 h (hooks s (hook_point_of (attrs obj)))),
        objects := (objects s)(h \<mapsto> obj\<lparr>initialized := False\<rparr>)\<rparr>)"
  using assms registry_ok_live [OF assms]
  by (simp add: ExtensionHook_shutdown_def remove_hook_def)

lemma registry_ok_init:
  assumes "registry_ok s"
  shows "registry_ok (snd (ExtensionHook_init ext a s))"
  unfolding registry_ok_def
proof (intro conjI allI impI)
  let ?s' = "snd (ExtensionHook_init ext a s)"
  fix cls
  show "distinct (hooks ?s' cls)"
    using assms registry_ok_fresh_hooks [OF assms]
    by (simp add: ExtensionHook_init_eq registry_ok_def)
next
  let ?s' = "snd (ExtensionHook_init ext a s)"
  fix cls h
  show "h \<in> set (hooks ?s' cls) \<longleftrightarrow>
     (\<exists>obj. objects ?s' h = Some obj \<and> initialized obj \<and> hook_point_of (attrs obj) = cls)"
    using assms registry_ok_fresh_hooks [OF assms] registry_ok_fresh [OF assms]
    by (auto simp: ExtensionHook_init_eq registry_ok_def)
next
  let ?s' = "snd (ExtensionHook_init ext a s)"
  fix h obj
  assume "objects ?s' h = Some obj"
  then show "h < next_id ?s'"
    using assms by (auto simp: ExtensionHook_init_eq registry_ok_def less_Suc_eq split: if_splits)
qed

lemma registry_ok_shutdown:
  assumes "registry_ok s" "objects s h = Some obj" "initialized obj"
  shows "registry_ok (snd (ExtensionHook_shutdown h s))"
  unfolding registry_ok_def ExtensionHook_shutdown_eq [OF assms] snd_conv
proof (intro conjI allI impI)
  fix cls
  show "distinct (hooks (s\<lparr>hooks := (hooks s)(hook_point_of (attrs obj) :=
            remove1 h (hooks s (hook_point_of (attrs obj)))),
        objects := (objects s)(h \<mapsto> obj\<lparr>initialized := False\<rparr>)\<rparr>) cls)"
    using assms by (simp add: registry_ok_def)
next
  fix cls h'
  show "h' \<in> set (hooks (s\<lparr>hooks := (hooks s)(hook_point_of (attrs obj) :=
            remove1 h (hooks s (hook_point_of (attrs obj)))),
        objects := (objects s)(h \<mapsto> obj\<lparr>initialized := False\<rparr>)\<rparr>) cls) \<longleftrightarrow>
     (\<exists>obj'. objects (s\<lparr>hooks := (hooks s)(hook_point_of (attrs obj) :=
            remove1 h (hooks s (hook_point_of (attrs obj)))),
        objects := (objects s)(h \<mapsto> obj\<lparr>initialized := False\<rparr>)\<rparr>) h' = Some obj'
        \<and> initialized obj' \<and> hook_point_of (attrs obj') = cls)"
    using assms by (auto simp: registry_ok_def)
next
  fix h' obj'
  assume "objects (s\<lparr>hooks := (hooks s)(hook_point_of (attrs obj) :=
            remove1 h (hooks s (hook_point_of (attrs obj)))),
        objects := (objects s)(h \<mapsto> obj\<lparr>initialized := False\<rparr>)\<rparr>) h' = Some obj'"
  then show "h' < next_id (s\<lparr>hooks := (hooks s)(hook_point_of (attrs obj) :=
            remove1 h (hooks s (hook_point_of (attrs obj)))),
        objects := (objects s)(h \<mapsto> obj\<lparr>initialized := False\<rparr>)\<rparr>)"
    using assms by (auto simp: registry_ok_def split: if_splits)
qed


lemma mset_fold_remove1: "mset (fold remove1 ps xs) = mset xs - mset ps"
  by (induction ps arbitrary: xs) (simp_all add: diff_diff_add_mset)


lemma subset_mset_diff_right:
  fixes A P M :: "'a multiset"
  shows "A + P \<subseteq># M \<Longrightarrow> A \<subseteq># M - P"
  by (meson mset_subset_eq_add_right subset_mset.dual_order.trans subset_mset.le_diff_conv2)

lemma filter_remove1_other: "\<not> P x \<Longrightarrow> filter P (remove1 x xs) = filter P xs"
  by (induction xs) auto

lemma filter_remove1_distinct:
  "distinct xs \<Longrightarrow> filter P (remove1 x xs) = remove1 x (filter P xs)"
  by (induction xs) (auto simp: remove1_idem)

lemma url_part_cong:
  "map_option attrs (objects s' h) = map_option attrs (objects s h) \<Longrightarrow>
   url_part s' r h = url_part s r h"
  by (auto simp: url_part_def split: option.splits)

lemma column_part_cong:
  "map_option attrs (objects s' h) = map_option attrs (objects s h) \<Longrightarrow>
   column_part s' d h = column_part s d h"
  by (auto simp: column_part_def split: option.splits)

lemma template_named_cong:
  "map_option attrs (objects s' h) = map_option attrs (objects s h) \<Longrightarrow>
   template_named s' n h = template_named s n h"
  by (auto simp: template_named_def split: option.splits)

lemma routes_ok_frame:
  assumes "routes_ok s"
    and "hooks s' URLHook = hooks s URLHook"
    and "\<And>h. h \<in> set (hooks s URLHook) \<Longrightarrow>
           map_option attrs (objects s' h) = map_option attrs (objects s h)"
    and "dynamic_urls s' = dynamic_urls s"
  shows "routes_ok s'"
proof -
  have eq: "map (url_part s' r) (hooks s URLHook) = map (url_part s r) (hooks s URLHook)" for r
    using assms(3) by (intro map_cong refl url_part_cong)
  show ?thesis
    using assms(1) unfolding routes_ok_def assms(2) assms(4) eq .
qed

lemma columns_ok_frame:
  assumes "columns_ok s"
    and "hooks s' DataGridColumnsHook = hooks s DataGridColumnsHook"
    and "\<And>h. h \<in> set (hooks s DataGridColumnsHook) \<Longrightarrow>
           map_option attrs (objects s' h) = map_option attrs (objects s h)"
    and "columns s' = columns s"
  shows "columns_ok s'"
proof -
  have eq: "map (column_part s' d) (hooks s DataGridColumnsHook)
      = map (column_part s d) (hooks s DataGridColumnsHook)" for d
    using assms(3) by (intro map_cong refl column_part_cong)
  show ?thesis
    using assms(1) unfolding columns_ok_def assms(2) assms(4) eq .
qed

lemma by_name_ok_frame:
  assumes "by_name_ok s"
    and "hooks s' TemplateHook = hooks s TemplateHook"
    and "\<And>h. h \<in> set (hooks s TemplateHook) \<Longrightarrow>
           map_option attrs (objects s' h) = map_option attrs (objects s h)"
    and "by_name s' = by_name s"
  shows "by_name_ok s'"
proof -
  have eq: "filter (template_named s' n) (hooks s TemplateHook)
      = filter (template_named s n) (hooks s TemplateHook)" for n
    using assms(3) by (intro filter_cong refl template_named_cong)
  show ?thesis
    using assms(1) unfolding by_name_ok_def TemplateHook_by_name_def assms(2) assms(4) eq .
qed


lemma init_attrs_old:
  "registry_ok s \<Longrightarrow> h \<in> set (hooks s cls) \<Longrightarrow>
   objects (snd (ExtensionHook_init ext a s)) h = objects s h"
  using registry_ok_fresh_hooks [of s cls] by (auto simp: ExtensionHook_init_eq)

lemma shutdown_attrs:
  assumes "registry_ok s" "objects s h = Some obj" "initialized obj"
  shows "map_option attrs (objects (snd (ExtensionHook_shutdown h s)) h')
       = map_option attrs (objects s h')"
  using assms(2) by (simp add: ExtensionHook_shutdown_eq [OF assms])

lemma shutdown_hooks_other:
  assumes "registry_ok s" "objects s h = Some obj" "initialized obj"
    and "hook_point_of (attrs obj) \<noteq> cls"
  shows "hooks (snd (ExtensionHook_shutdown h s)) cls = hooks s cls"
  using assms(4) by (simp add: ExtensionHook_shutdown_eq [OF assms(1-3)])

lemma shutdown_hooks_own:
  assumes "registry_ok s" "objects s h = Some obj" "initialized obj"
  shows "hooks (snd (ExtensionHook_shutdown h s)) (hook_point_of (attrs obj))
       = remove1 h (hooks s (hook_point_of (attrs obj)))"
  by (simp add: ExtensionHook_shutdown_eq [OF assms(1-3)])

lemma routes_ok_init_other:
  assumes "registry_ok s" "routes_ok s" "hook_point_of a \<noteq> URLHook"
  shows "routes_ok (snd (ExtensionHook_init ext a s))"
proof (rule routes_ok_frame [OF assms(2)])
  show "hooks (snd (ExtensionHook_init ext a s)) URLHook = hooks s URLHook"
    using assms(3) by (simp add: ExtensionHook_init_eq)
  show "dynamic_urls (snd (ExtensionHook_init ext a s)) = dynamic_urls s"
    by (simp add: ExtensionHook_init_eq)
  show "map_option attrs (objects (snd (ExtensionHook_init ext a s)) h)
      = map_option attrs (objects s h)" if "h \<in> set (hooks s URLHook)" for h
    using init_attrs_old [OF assms(1) that] by simp
qed

lemma columns_ok_init_other:
  assumes "registry_ok s" "columns_ok s" "hook_point_of a \<noteq> DataGridColumnsHook"
  shows "columns_ok (snd (ExtensionHook_init ext a s))"
proof (rule columns_ok_frame [OF assms(2)])
  show "hooks (snd (ExtensionHook_init ext a s)) DataGridColumnsHook
      = hooks s DataGridColumnsHook"
    using assms(3) by (simp add: ExtensionHook_init_eq)
  show "columns (snd (ExtensionHook_init ext a s)) = columns s"
    by (simp add: ExtensionHook_init_eq)
  show "map_option attrs (objects (snd (ExtensionHook_init ext a s)) h)
      = map_option attrs (objects s h)" if "h \<in> set (hooks s DataGridColumnsHook)" for h
    using init_attrs_old [OF assms(1) that] by simp
qed

lemma by_name_ok_init_other:
  assumes "registry_ok s" "by_name_ok s" "hook_point_of a \<noteq> TemplateHook"
  shows "by_name_ok (snd (ExtensionHook_init ext a s))"
proof (rule by_name_ok_frame [OF assms(2)])
  show "hooks (snd (ExtensionHook_init ext a s)) TemplateHook = hooks s TemplateHook"
    using assms(3) by (simp add: ExtensionHook_init_eq)
  show "by_name (snd (ExtensionHook_init ext a s)) = by_name s"
    by (simp add: ExtensionHook_init_eq)
  show "map_option attrs (objects (snd (ExtensionHook_init ext a s)) h)
      = map_option attrs (objects s h)" if "h \<in> set (hooks s TemplateHook)" for h
    using init_attrs_old [OF assms(1) that] by simp
qed

lemma routes_ok_shutdown_other:
  assumes "registry_ok s" "objects s h = Some obj" "initialized obj"
    and "routes_ok s" "hook_point_of (attrs obj) \<noteq> URLHook"
  shows "routes_ok (snd (ExtensionHook_shutdown h s))"
proof (rule routes_ok_frame [OF assms(4)])
  show "hooks (snd (ExtensionHook_shutdown h s)) URLHook = hooks s URLHook"
    by (rule shutdown_hooks_other [OF assms(1-3,5)])
  show "dynamic_urls (snd (ExtensionHook_shutdown h s)) = dynamic_urls s"
    by (simp add: ExtensionHook_shutdown_eq [OF assms(1-3)])
  show "map_option attrs (objects (snd (ExtensionHook_shutdown h s)) h')
      = map_option attrs (objects s h')" for h'
    by (rule shutdown_attrs [OF assms(1-3)])
qed

lemma columns_ok_shutdown_other:
  assumes "registry_ok s" "objects s h = Some obj" "initialized obj"
    and "columns_ok s" "hook_point_of (attrs obj) \<noteq> DataGridColumnsHook"
  shows "columns_ok (snd (ExtensionHook_shutdown h s))"
proof (rule columns_ok_frame [OF assms(4)])
  show "hooks (snd (ExtensionHook_shutdown h s)) DataGridColumnsHook
      = hooks s DataGridColumnsHook"
    by (rule shutdown_hooks_other [OF assms(1-3,5)])
  show "columns (snd (ExtensionHook_shutdown h s)) = columns s"
    by (simp add: ExtensionHook_shutdown_eq [OF assms(1-3)])
  show "map_option attrs (objects (snd (ExtensionHook_shutdown h s)) h')
      = map_option attrs (objects s h')" for h'
    by (rule shutdown_attrs [OF assms(1-3)])
qed

lemma by_name_ok_shutdown_other:
  assumes "registry_ok s" "objects s h = Some obj" "initialized obj"
    and "by_name_ok s" "hook_point_of (attrs obj) \<noteq> TemplateHook"
  shows "by_name_ok (snd (ExtensionHook_shutdown h s))"
proof (rule by_name_ok_frame [OF assms(4)])
  show "hooks (snd (ExtensionHook_shutdown h s)) TemplateHook = hooks s TemplateHook"
    by (rule shutdown_hooks_other [OF assms(1-3,5)])
  show "by_name (snd (ExtensionHook_shutdown h s)) = by_name s"
    by (simp add: ExtensionHook_shutdown_eq [OF assms(1-3)])
  show "map_option attrs (objects (snd (ExtensionHook_shutdown h s)) h')
      = map_option attrs (objects s h')" for h'
    by (rule shutdown_attrs [OF assms(1-3)])
qed

lemma signals_ok_init_other:
  assumes "registry_ok s" "signals_ok s" "hook_point_of a \<noteq> SignalHook"
  shows "signals_ok (snd (ExtensionHook_init ext a s))"
proof -
  have a: "a \<noteq> SignalAttrs sg cb uid" for sg cb uid
    using assms(3) by auto
  show ?thesis
    using assms(2) unfolding signals_ok_def ExtensionHook_init_eq snd_conv
    by (simp add: a)
qed

lemma signals_ok_shutdown_other:
  assumes "registry_ok s" "objects s h = Some obj" "initialized obj"
    and "signals_ok s" "hook_point_of (attrs obj) \<noteq> SignalHook"
  shows "signals_ok (snd (ExtensionHook_shutdown h s))"
proof -
  have a: "attrs obj \<noteq> SignalAttrs sg cb uid" for sg cb uid
    using assms(5) by auto
  show ?thesis
    using assms(4) unfolding signals_ok_def ExtensionHook_shutdown_eq [OF assms(1-3)] snd_conv
    by (simp add: a)
qed

lemma fold_remove_column:
  "fold (remove_column d) cs s = s\<lparr>columns := (columns s)(d := fold remove1 cs (columns s d))\<rparr>"
  by (induction cs arbitrary: s) (simp_all add: remove_column_def)

lemma if_same_guard:
  "(\<lambda>a. if a = d then x else if a = d then y else z a) = (\<lambda>a. if a = d then x else z a)"
  by (simp add: fun_eq_iff)

lemma add_columns_ok:
  "add_columns d cs s = (None, s') \<Longrightarrow>
   s' = s\<lparr>columns := (columns s)(d := columns s d @ cs)\<rparr>
   \<and> set cs \<inter> set (columns s d) = {}"
proof (induction cs arbitrary: s)
  case Nil
  then show ?case by simp
next
  case (Cons c cs)
  from Cons.prems have fresh: "c \<notin> set (columns s d)"
    by (auto simp: add_column_def split: if_splits)
  with Cons.prems have
    "add_columns d cs (s\<lparr>columns := (columns s)(d := columns s d @ [c])\<rparr>) = (None, s')"
    by (simp add: add_column_def)
  from Cons.IH [OF this] fresh show ?case by (simp add: if_same_guard)
qed

lemma add_columns_fields:
  "hooks (snd (add_columns d cs s)) = hooks s"
  "objects (snd (add_columns d cs s)) = objects s"
  "next_id (snd (add_columns d cs s)) = next_id s"
  "by_name (snd (add_columns d cs s)) = by_name s"
  "dynamic_urls (snd (add_columns d cs s)) = dynamic_urls s"
  "receivers (snd (add_columns d cs s)) = receivers s"
  "next_uuid (snd (add_columns d cs s)) = next_uuid s"
  by (induction cs arbitrary: s; simp add: add_column_def split: prod.splits option.splits)+

lemma url_part_update:
  "url_part (s\<lparr>hooks := x_hooks\<rparr>) = url_part s"
  "url_part (s\<lparr>next_id := x_next_id\<rparr>) = url_part s"
  "url_part (s\<lparr>extension_hooks := x_extension_hooks\<rparr>) = url_part s"
  "url_part (s\<lparr>by_name := x_by_name\<rparr>) = url_part s"
  "url_part (s\<lparr>dynamic_urls := x_dynamic_urls\<rparr>) = url_part s"
  "url_part (s\<lparr>receivers := x_receivers\<rparr>) = url_part s"
  "url_part (s\<lparr>next_uuid := x_next_uuid\<rparr>) = url_part s"
  "url_part (s\<lparr>columns := x_columns\<rparr>) = url_part s"
  by (simp_all add: fun_eq_iff url_part_def)

lemma column_part_update:
  "column_part (s\<lparr>hooks := x_hooks\<rparr>) = column_part s"
  "column_part (s\<lparr>next_id := x_next_id\<rparr>) = column_part s"
  "column_part (s\<lparr>extension_hooks := x_extension_hooks\<rparr>) = column_part s"
  "column_part (s\<lparr>by_name := x_by_name\<rparr>) = column_part s"
  "column_part (s\<lparr>dynamic_urls := x_dynamic_urls\<rparr>) = column_part s"
  "column_part (s\<lparr>receivers := x_receivers\<rparr>) = column_part s"
  "column_part (s\<lparr>next_uuid := x_next_uuid\<rparr>) = column_part s"
  "column_part (s\<lparr>columns := x_columns\<rparr>) = column_part s"
  by (simp_all add: fun_eq_iff column_part_def)

lemma template_named_update:
  "template_named (s\<lparr>hooks := x_hooks\<rparr>) = template_named s"
  "template_named (s\<lparr>next_id := x_next_id\<rparr>) = template_named s"
  "template_named (s\<lparr>extension_hooks := x_extension_hooks\<rparr>) = template_named s"
  "template_named (s\<lparr>by_name := x_by_name\<rparr>) = template_named s"
  "template_named (s\<lparr>dynamic_urls := x_dynamic_urls\<rparr>) = template_named s"
  "template_named (s\<lparr>receivers := x_receivers\<rparr>) = template_named s"
  "template_named (s\<lparr>next_uuid := x_next_uuid\<rparr>) = template_named s"
  "template_named (s\<lparr>columns := x_columns\<rparr>) = template_named s"
  by (simp_all add: fun_eq_iff template_named_def)

text \<open>The invariants that an operation of a collaborator does not concern.\<close>

lemma add_patterns_transparent:
  "registry_ok (add_patterns r ps s) = registry_ok s"
  "columns_ok (add_patterns r ps s) = columns_ok s"
  "signals_ok (add_patterns r ps s) = signals_ok s"
  "by_name_ok (add_patterns r ps s) = by_name_ok s"
  by (simp_all add: add_patterns_def registry_ok_def columns_ok_def column_part_update
      signals_ok_def by_name_ok_def TemplateHook_by_name_def template_named_update)

lemma remove_patterns_transparent:
  "registry_ok (remove_patterns r ps s) = registry_ok s"
  "columns_ok (remove_patterns r ps s) = columns_ok s"
  "signals_ok (remove_patterns r ps s) = signals_ok s"
  "by_name_ok (remove_patterns r ps s) = by_name_ok s"
  by (simp_all add: remove_patterns_def registry_ok_def columns_ok_def column_part_update
      signals_ok_def by_name_ok_def TemplateHook_by_name_def template_named_update)

lemma columns_update_transparent:
  "registry_ok (s\<lparr>columns := c\<rparr>) = registry_ok s"
  "routes_ok (s\<lparr>columns := c\<rparr>) = routes_ok s"
  "signals_ok (s\<lparr>columns := c\<rparr>) = signals_ok s"
  "by_name_ok (s\<lparr>columns := c\<rparr>) = by_name_ok s"
  by (simp_all add: registry_ok_def routes_ok_def url_part_update
      signals_ok_def by_name_ok_def TemplateHook_by_name_def template_named_update)

lemma receivers_update_transparent:
  "registry_ok (s\<lparr>receivers := c\<rparr>) = registry_ok s"
  "routes_ok (s\<lparr>receivers := c\<rparr>) = routes_ok s"
  "columns_ok (s\<lparr>receivers := c\<rparr>) = columns_ok s"
  "by_name_ok (s\<lparr>receivers := c\<rparr>) = by_name_ok s"
  by (simp_all add: registry_ok_def routes_ok_def url_part_update columns_ok_def
      column_part_update by_name_ok_def TemplateHook_by_name_def template_named_update)

lemma next_uuid_update_transparent:
  "registry_ok (s\<lparr>next_uuid := c\<rparr>) = registry_ok s"
  "routes_ok (s\<lparr>next_uuid := c\<rparr>) = routes_ok s"
  "columns_ok (s\<lparr>next_uuid := c\<rparr>) = columns_ok s"
  "by_name_ok (s\<lparr>next_uuid := c\<rparr>) = by_name_ok s"
  by (simp_all add: registry_ok_def routes_ok_def url_part_update columns_ok_def
      column_part_update by_name_ok_def TemplateHook_by_name_def template_named_update)

lemma by_name_update_transparent:
  "registry_ok (s\<lparr>by_name := c\<rparr>) = registry_ok s"
  "routes_ok (s\<lparr>by_name := c\<rparr>) = routes_ok s"
  "columns_ok (s\<lparr>by_name := c\<rparr>) = columns_ok s"
  "signals_ok (s\<lparr>by_name := c\<rparr>) = signals_ok s"
  by (simp_all add: registry_ok_def routes_ok_def url_part_update columns_ok_def
      column_part_update signals_ok_def)

subsection \<open>URL hooks keep the routing invariant\<close>

lemma URLHook_init_eq:
  "URLHook_init ext ps s =
     (Inr (next_id s),
      add_patterns (ext_dynamic_urls ext) ps
        (snd (ExtensionHook_init ext (URLAttrs ps (ext_dynamic_urls ext)) s)))"
  by (simp add: URLHook_init_def ExtensionHook_init_eq)

lemma routes_ok_URLHook_init:
  assumes "registry_ok s" "routes_ok s"
  shows "routes_ok (snd (URLHook_init ext ps s))"
  unfolding routes_ok_def
proof
  fix r
  let ?r0 = "ext_dynamic_urls ext"
  let ?s' = "snd (URLHook_init ext ps s)"
  have hooks': "hooks ?s' URLHook = hooks s URLHook @ [next_id s]"
    by (simp add: URLHook_init_eq add_patterns_def ExtensionHook_init_eq)
  have new: "url_part ?s' r (next_id s) = (if ?r0 = r then mset ps else {#})"
    by (simp add: URLHook_init_eq add_patterns_def ExtensionHook_init_eq url_part_def)
  have old: "map (url_part ?s' r) (hooks s URLHook) = map (url_part s r) (hooks s URLHook)"
  proof (intro map_cong refl url_part_cong)
    fix h assume "h \<in> set (hooks s URLHook)"
    then have "h \<noteq> next_id s"
      using registry_ok_fresh_hooks [OF assms(1)] by auto
    then show "map_option attrs (objects ?s' h) = map_option attrs (objects s h)"
      by (simp add: URLHook_init_eq add_patterns_def ExtensionHook_init_eq)
  qed
  have dyn: "mset (dynamic_urls ?s' r)
      = mset (dynamic_urls s r) + (if ?r0 = r then mset ps else {#})"
    by (simp add: URLHook_init_eq add_patterns_def ExtensionHook_init_eq)
  from assms(2) have "sum_list (map (url_part s r) (hooks s URLHook)) \<subseteq># mset (dynamic_urls s r)"
    by (simp add: routes_ok_def)
  then show "sum_list (map (url_part ?s' r) (hooks ?s' URLHook)) \<subseteq># mset (dynamic_urls ?s' r)"
    unfolding hooks' dyn by (simp add: old new)
qed

lemma URLHook_shutdown_eq:
  assumes "registry_ok s" "objects s h = Some obj" "initialized obj"
  shows "URLHook_shutdown h ps r s =
     (None, remove_patterns r ps (snd (ExtensionHook_shutdown h s)))"
  by (simp add: URLHook_shutdown_def ExtensionHook_shutdown_eq [OF assms])

lemma routes_ok_URLHook_shutdown:
  assumes "registry_ok s" "objects s h = Some obj" "initialized obj"
    and "attrs obj = URLAttrs ps r0" and "routes_ok s"
  shows "routes_ok (snd (URLHook_shutdown h ps r0 s))"
  unfolding routes_ok_def
proof
  fix r
  let ?s' = "snd (URLHook_shutdown h ps r0 s)"
  have mem: "h \<in> set (hooks s URLHook)"
    using registry_ok_live [OF assms(1-3)] assms(4) by simp
  have hooks': "hooks ?s' URLHook = remove1 h (hooks s URLHook)"
    using assms(4)
    by (simp add: URLHook_shutdown_eq [OF assms(1-3)] remove_patterns_def
        ExtensionHook_shutdown_eq [OF assms(1-3)])
  have parts: "url_part ?s' r = url_part s r"
    using assms(2)
    by (auto simp: fun_eq_iff url_part_def URLHook_shutdown_eq [OF assms(1-3)] remove_patterns_def
        ExtensionHook_shutdown_eq [OF assms(1-3)])
  have own: "url_part s r h = (if r0 = r then mset ps else {#})"
    using assms(2,4) by (simp add: url_part_def)
  have dyn: "mset (dynamic_urls ?s' r)
      = mset (dynamic_urls s r) - (if r0 = r then mset ps else {#})"
    by (simp add: URLHook_shutdown_eq [OF assms(1-3)] remove_patterns_def
        ExtensionHook_shutdown_eq [OF assms(1-3)] mset_fold_remove1)
  from assms(5) have "sum_list (map (url_part s r) (hooks s URLHook)) \<subseteq># mset (dynamic_urls s r)"
    by (simp add: routes_ok_def)
  then have "sum_list (map (url_part s r) (remove1 h (hooks s URLHook)))
        + (if r0 = r then mset ps else {#}) \<subseteq># mset (dynamic_urls s r)"
    by (simp add: sum_list_map_remove1 [OF mem] own add.commute)
  then show "sum_list (map (url_part ?s' r) (hooks ?s' URLHook)) \<subseteq># mset (dynamic_urls ?s' r)"
    unfolding hooks' dyn parts by (rule subset_mset_diff_right)
qed

subsection \<open>Column hooks keep the column invariant\<close>

lemma DataGridColumnsHook_init_ok:
  assumes "DataGridColumnsHook_init ext d cs s = (Inr h, s')"
  shows "h = next_id s"
    and "s' = (snd (ExtensionHook_init ext (DataGridColumnsAttrs d cs) s))
               \<lparr>columns := (columns s)(d := columns s d @ cs)\<rparr>"
    and "set cs \<inter> set (columns s d) = {}"
proof -
  let ?s1 = "snd (ExtensionHook_init ext (DataGridColumnsAttrs d cs) s)"
  from assms have ok: "add_columns d cs ?s1 = (None, s')" and h: "h = next_id s"
    by (auto simp: DataGridColumnsHook_init_def ExtensionHook_init_eq
        split: prod.splits option.splits)
  have cols: "columns ?s1 = columns s"
    by (simp add: ExtensionHook_init_eq)
  from add_columns_ok [OF ok] cols
  show "s' = ?s1\<lparr>columns := (columns s)(d := columns s d @ cs)\<rparr>"
    and "set cs \<inter> set (columns s d) = {}"
    by simp_all
  show "h = next_id s" by (rule h)
qed

lemma columns_ok_DataGridColumnsHook_init:
  assumes "registry_ok s" "columns_ok s"
    and "DataGridColumnsHook_init ext d0 cs s = (Inr h, s')"
  shows "columns_ok s'"
  unfolding columns_ok_def
proof
  fix d
  note s' = DataGridColumnsHook_init_ok(2) [OF assms(3)]
  have hooks': "hooks s' DataGridColumnsHook = hooks s DataGridColumnsHook @ [next_id s]"
    by (simp add: s' ExtensionHook_init_eq)
  have new: "column_part s' d (next_id s) = (if d0 = d then mset cs else {#})"
    by (simp add: s' ExtensionHook_init_eq column_part_def)
  have old: "map (column_part s' d) (hooks s DataGridColumnsHook)
      = map (column_part s d) (hooks s DataGridColumnsHook)"
  proof (intro map_cong refl column_part_cong)
    fix h' assume "h' \<in> set (hooks s DataGridColumnsHook)"
    then have "h' \<noteq> next_id s"
      using registry_ok_fresh_hooks [OF assms(1)] by auto
    then show "map_option attrs (objects s' h') = map_option attrs (objects s h')"
      by (simp add: s' ExtensionHook_init_eq)
  qed
  have cols: "mset (columns s' d) = mset (columns s d) + (if d0 = d then mset cs else {#})"
    by (simp add: s' ExtensionHook_init_eq)
  from assms(2) have "sum_list (map (column_part s d) (hooks s DataGridColumnsHook))
      \<subseteq># mset (columns s d)"
    by (simp add: columns_ok_def)
  then show "sum_list (map (column_part s' d) (hooks s' DataGridColumnsHook))
      \<subseteq># mset (columns s' d)"
    unfolding hooks' cols by (simp add: old new)
qed

lemma DataGridColumnsHook_shutdown_eq:
  assumes "registry_ok s" "objects s h = Some obj" "initialized obj"
  shows "DataGridColumnsHook_shutdown h d cs s =
     (None, (snd (ExtensionHook_shutdown h s))
              \<lparr>columns := (columns s)(d := fold remove1 cs (columns s d))\<rparr>)"
  by (simp add: DataGridColumnsHook_shutdown_def ExtensionHook_shutdown_eq [OF assms]
      fold_remove_column)

lemma columns_ok_DataGridColumnsHook_shutdown:
  assumes "registry_ok s" "objects s h = Some obj" "initialized obj"
    and "attrs obj = DataGridColumnsAttrs d0 cs" and "columns_ok s"
  shows "columns_ok (snd (DataGridColumnsHook_shutdown h d0 cs s))"
  unfolding columns_ok_def
proof
  fix d
  let ?s' = "snd (DataGridColumnsHook_shutdown h d0 cs s)"
  have mem: "h \<in> set (hooks s DataGridColumnsHook)"
    using registry_ok_live [OF assms(1-3)] assms(4) by simp
  have hooks': "hooks ?s' DataGridColumnsHook = remove1 h (hooks s DataGridColumnsHook)"
    using assms(4)
    by (simp add: DataGridColumnsHook_shutdown_eq [OF assms(1-3)]
        ExtensionHook_shutdown_eq [OF assms(1-3)])
  have parts: "column_part ?s' d = column_part s d"
    using assms(2)
    by (auto simp: fun_eq_iff column_part_def DataGridColumnsHook_shutdown_eq [OF assms(1-3)]
        ExtensionHook_shutdown_eq [OF assms(1-3)])
  have own: "column_part s d h = (if d0 = d then mset cs else {#})"
    using assms(2,4) by (simp add: column_part_def)
  have cols: "mset (columns ?s' d)
      = mset (columns s d) - (if d0 = d then mset cs else {#})"
    by (simp add: DataGridColumnsHook_shutdown_eq [OF assms(1-3)]
        ExtensionHook_shutdown_eq [OF assms(1-3)] mset_fold_remove1)
  from assms(5) have "sum_list (map (column_part s d) (hooks s DataGridColumnsHook))
      \<subseteq># mset (columns s d)"
    by (simp add: columns_ok_def)
  then have "sum_list (map (column_part s d) (remove1 h (hooks s DataGridColumnsHook)))
        + (if d0 = d then mset cs else {#}) \<subseteq># mset (columns s d)"
    by (simp add: sum_list_map_remove1 [OF mem] own add.commute)
  then show "sum_list (map (column_part ?s' d) (hooks ?s' DataGridColumnsHook))
      \<subseteq># mset (columns ?s' d)"
    unfolding hooks' cols parts by (rule subset_mset_diff_right)
qed

subsection \<open>Signal hooks keep the subscription invariant\<close>

lemma SignalHook_init_eq:
  "SignalHook_init ext sg cb sender s =
     (Inr (next_id s),
      signal_connect sg cb sender (next_uuid s)
        (snd (ExtensionHook_init ext (SignalAttrs sg cb (next_uuid s))
                (s\<lparr>next_uuid := Suc (next_uuid s)\<rparr>))))"
  by (simp add: SignalHook_init_def uuid1_def ExtensionHook_init_eq)

lemma signals_okD1:
  "signals_ok s \<Longrightarrow> x \<in> set (receivers s sg) \<Longrightarrow> recv_uid x < next_uuid s"
  unfolding signals_ok_def by meson

lemma signals_okD2: "signals_ok s \<Longrightarrow> distinct (map recv_uid (receivers s sg))"
  unfolding signals_ok_def by meson

lemma signals_okD3:
  "signals_ok s \<Longrightarrow> objects s h = Some obj \<Longrightarrow> attrs obj = SignalAttrs sg cb uid \<Longrightarrow>
   uid < next_uuid s"
  unfolding signals_ok_def by meson

lemma signals_okD4:
  "signals_ok s \<Longrightarrow> objects s h = Some obj \<Longrightarrow> attrs obj = SignalAttrs sg cb uid \<Longrightarrow>
   objects s h' = Some obj' \<Longrightarrow> attrs obj' = SignalAttrs sg' cb' uid \<Longrightarrow> h = h'"
  unfolding signals_ok_def by meson

lemma signals_okD5:
  "signals_ok s \<Longrightarrow> objects s h = Some obj \<Longrightarrow> initialized obj \<Longrightarrow>
   attrs obj = SignalAttrs sg cb uid \<Longrightarrow> uid \<in> recv_uid ` set (receivers s sg)"
  unfolding signals_ok_def by meson

lemma signals_okI:
  assumes "\<And>sg x. x \<in> set (receivers s sg) \<Longrightarrow> recv_uid x < next_uuid s"
    and "\<And>sg. distinct (map recv_uid (receivers s sg))"
    and "\<And>h obj sg cb uid. objects s h = Some obj \<Longrightarrow> attrs obj = SignalAttrs sg cb uid
           \<Longrightarrow> uid < next_uuid s"
    and "\<And>h h' obj obj' sg cb sg' cb' uid.
           objects s h = Some obj \<Longrightarrow> attrs obj = SignalAttrs sg cb uid
           \<Longrightarrow> objects s h' = Some obj' \<Longrightarrow> attrs obj' = SignalAttrs sg' cb' uid
           \<Longrightarrow> h = h'"
    and "\<And>h obj sg cb uid. objects s h = Some obj \<Longrightarrow> initialized obj
           \<Longrightarrow> attrs obj = SignalAttrs sg cb uid
           \<Longrightarrow> uid \<in> recv_uid ` set (receivers s sg)"
  shows "signals_ok s"
  unfolding signals_ok_def
proof (intro conjI allI impI; (elim conjE)?)
  fix sg x assume "x \<in> set (receivers s sg)"
  then show "recv_uid x < next_uuid s" by (rule assms(1))
next
  fix sg show "distinct (map recv_uid (receivers s sg))" by (rule assms(2))
next
  fix h obj sg cb uid
  assume "objects s h = Some obj" "attrs obj = SignalAttrs sg cb uid"
  then show "uid < next_uuid s" by (rule assms(3))
next
  fix h h' obj obj' sg cb sg' cb' uid
  assume "objects s h = Some obj" "attrs obj = SignalAttrs sg cb uid"
    "objects s h' = Some obj'" "attrs obj' = SignalAttrs sg' cb' uid"
  then show "h = h'" by (rule assms(4))
next
  fix h obj sg cb uid
  assume "objects s h = Some obj" "initialized obj" "attrs obj = SignalAttrs sg cb uid"
  then show "uid \<in> recv_uid ` set (receivers s sg)" by (rule assms(5))
qed

lemma signals_ok_SignalHook_init:
  assumes "registry_ok s" "signals_ok s"
  shows "signals_ok (snd (SignalHook_init ext sg cb sender s))"
proof -
  let ?s' = "snd (SignalHook_init ext sg cb sender s)"
  note d = signals_okD1 [OF assms(2)] signals_okD2 [OF assms(2)] signals_okD3 [OF assms(2)]
    signals_okD4 [OF assms(2)] signals_okD5 [OF assms(2)]
  have fresh: "objects s (next_id s) = None"
    by (rule registry_ok_fresh [OF assms(1)])
  have recv: "receivers ?s' = (receivers s)(sg := receivers s sg
      @ [\<lparr>recv_uid = next_uuid s, recv_sender = sender, recv_callback = cb\<rparr>])"
    by (simp add: SignalHook_init_eq signal_connect_def ExtensionHook_init_eq)
  have uuid: "next_uuid ?s' = Suc (next_uuid s)"
    by (simp add: SignalHook_init_eq signal_connect_def ExtensionHook_init_eq)
  have objs: "objects ?s' = (objects s)(next_id s \<mapsto>
      \<lparr>hook_extension = ext, initialized = True, attrs = SignalAttrs sg cb (next_uuid s)\<rparr>)"
    by (simp add: SignalHook_init_eq signal_connect_def ExtensionHook_init_eq)
  have c1: "recv_uid x < next_uuid ?s'" if "x \<in> set (receivers ?s' sg')" for sg' x
    using that d(1) [of x sg'] unfolding recv uuid
    by (auto simp: less_Suc_eq split: if_splits)
  have c2: "distinct (map recv_uid (receivers ?s' sg'))" for sg'
  proof -
    have "next_uuid s \<notin> recv_uid ` set (receivers s sg)"
      using d(1) [of _ sg] by fastforce
    with d(2) [of sg'] d(2) [of sg] show ?thesis
      unfolding recv by (simp split: if_splits)
  qed
  have c3: "uid < next_uuid ?s'"
    if "objects ?s' h = Some obj" "attrs obj = SignalAttrs sg' cb' uid" for h obj sg' cb' uid
    using that d(3) [of h obj sg' cb' uid] unfolding objs uuid
    by (auto simp: less_Suc_eq split: if_splits)
  have c4: "h = h'"
    if "objects ?s' h = Some obj" "attrs obj = SignalAttrs sg1 cb1 uid"
      "objects ?s' h' = Some obj'" "attrs obj' = SignalAttrs sg2 cb2 uid"
    for h h' obj obj' sg1 cb1 sg2 cb2 uid
    using that d(4) [of h obj sg1 cb1 uid h' obj' sg2 cb2]
      d(3) [of h obj sg1 cb1 uid] d(3) [of h' obj' sg2 cb2 uid]
    unfolding objs by (auto split: if_splits)
  have c5: "uid \<in> recv_uid ` set (receivers ?s' sg')"
    if "objects ?s' h = Some obj" "initialized obj" "attrs obj = SignalAttrs sg' cb' uid"
    for h obj sg' cb' uid
    using that d(5) [of h obj sg' cb' uid] unfolding objs recv
    by (auto split: if_splits)
  show ?thesis
    by (rule signals_okI) (fact c1 c2 c3 c4 c5)+
qed

lemma SignalHook_shutdown_eq:
  assumes "registry_ok s" "objects s h = Some obj" "initialized obj"
  shows "SignalHook_shutdown h sg uid s =
     (None, signal_disconnect sg uid (snd (ExtensionHook_shutdown h s)))"
  by (simp add: SignalHook_shutdown_def ExtensionHook_shutdown_eq [OF assms])

lemma signals_ok_SignalHook_shutdown:
  assumes "registry_ok s" "objects s h = Some obj" "initialized obj"
    and "attrs obj = SignalAttrs sg cb uid" and "signals_ok s"
  shows "signals_ok (snd (SignalHook_shutdown h sg uid s))"
proof -
  let ?s' = "snd (SignalHook_shutdown h sg uid s)"
  note d = signals_okD1 [OF assms(5)] signals_okD2 [OF assms(5)] signals_okD3 [OF assms(5)]
    signals_okD4 [OF assms(5)] signals_okD5 [OF assms(5)]
  have recv: "receivers ?s' = (receivers s)(sg :=
      filter (\<lambda>x. recv_uid x \<noteq> uid) (receivers s sg))"
    by (simp add: SignalHook_shutdown_eq [OF assms(1-3)] signal_disconnect_def
        ExtensionHook_shutdown_eq [OF assms(1-3)])
  have uuid: "next_uuid ?s' = next_uuid s"
    by (simp add: SignalHook_shutdown_eq [OF assms(1-3)] signal_disconnect_def
        ExtensionHook_shutdown_eq [OF assms(1-3)])
  have objs: "objects ?s' = (objects s)(h \<mapsto> obj\<lparr>initialized := False\<rparr>)"
    by (simp add: SignalHook_shutdown_eq [OF assms(1-3)] signal_disconnect_def
        ExtensionHook_shutdown_eq [OF assms(1-3)])
  have c1: "recv_uid x < next_uuid ?s'" if "x \<in> set (receivers ?s' sg')" for sg' x
    using that d(1) [of x sg'] unfolding recv uuid
    by (auto split: if_splits)
  have c2: "distinct (map recv_uid (receivers ?s' sg'))" for sg'
    using d(2) [of sg'] unfolding recv
    by (auto simp: distinct_map_filter)
  have c3: "uid' < next_uuid ?s'"
    if "objects ?s' h' = Some obj'" "attrs obj' = SignalAttrs sg' cb' uid'"
    for h' obj' sg' cb' uid'
    using that d(3) [of h' obj' sg' cb' uid'] d(3) [OF assms(2), of sg' cb' uid']
    unfolding objs uuid
    by (auto split: if_splits)
  have c4: "h1 = h2"
    if "objects ?s' h1 = Some obj1" "attrs obj1 = SignalAttrs sg1 cb1 u"
      "objects ?s' h2 = Some obj2" "attrs obj2 = SignalAttrs sg2 cb2 u"
    for h1 h2 obj1 obj2 sg1 cb1 sg2 cb2 u
    using that d(4) [of h1 obj1 sg1 cb1 u h2 obj2 sg2 cb2]
      d(4) [of h obj sg1 cb1 u h2 obj2 sg2 cb2]
      d(4) [of h1 obj1 sg1 cb1 u h obj sg2 cb2] assms(2)
    unfolding objs by (auto split: if_splits)
  have c5: "u \<in> recv_uid ` set (receivers ?s' sg')"
    if "objects ?s' h' = Some obj'" "initialized obj'" "attrs obj' = SignalAttrs sg' cb' u"
    for h' obj' sg' cb' u
  proof -
    from that(1,2) have ne: "h' \<noteq> h" and o: "objects s h' = Some obj'"
      unfolding objs by (auto split: if_splits)
    from d(5) [OF o that(2,3)] have mem: "u \<in> recv_uid ` set (receivers s sg')" .
    have "u \<noteq> uid"
      using d(4) [OF o that(3) assms(2), of sg cb] assms(4) ne by auto
    with mem show ?thesis unfolding recv by auto
  qed
  show ?thesis
    by (rule signals_okI) (fact c1 c2 c3 c4 c5)+
qed

subsection \<open>Template hooks keep the name index\<close>

lemma TemplateHook_init_eq:
  "TemplateHook_init ext name template_name apply_to s =
     (Inr (next_id s),
      (snd (ExtensionHook_init ext (TemplateAttrs apply_to name template_name) s))
        \<lparr>by_name := (by_name s)(name \<mapsto> TemplateHook_by_name s name @ [next_id s])\<rparr>)"
  by (simp add: TemplateHook_init_def ExtensionHook_init_eq TemplateHook_by_name_def
      split: option.splits)

lemma by_name_ok_TemplateHook_init:
  assumes "registry_ok s" "by_name_ok s"
  shows "by_name_ok (snd (TemplateHook_init ext name template_name apply_to s))"
  unfolding by_name_ok_def
proof
  fix n
  let ?s' = "snd (TemplateHook_init ext name template_name apply_to s)"
  have hooks': "hooks ?s' TemplateHook = hooks s TemplateHook @ [next_id s]"
    by (simp add: TemplateHook_init_eq ExtensionHook_init_eq)
  have new: "template_named ?s' n (next_id s) \<longleftrightarrow> name = n"
    by (simp add: TemplateHook_init_eq ExtensionHook_init_eq template_named_def)
  have old: "filter (template_named ?s' n) (hooks s TemplateHook)
      = filter (template_named s n) (hooks s TemplateHook)"
  proof (intro filter_cong refl template_named_cong)
    fix h assume "h \<in> set (hooks s TemplateHook)"
    then have "h \<noteq> next_id s"
      using registry_ok_fresh_hooks [OF assms(1)] by auto
    then show "map_option attrs (objects ?s' h) = map_option attrs (objects s h)"
      by (simp add: TemplateHook_init_eq ExtensionHook_init_eq)
  qed
  have look: "TemplateHook_by_name ?s' n
      = TemplateHook_by_name s n @ (if name = n then [next_id s] else [])"
    by (simp add: TemplateHook_init_eq ExtensionHook_init_eq TemplateHook_by_name_def)
  from assms(2) have "TemplateHook_by_name s n = filter (template_named s n) (hooks s TemplateHook)"
    by (simp add: by_name_ok_def)
  then show "TemplateHook_by_name ?s' n = filter (template_named ?s' n) (hooks ?s' TemplateHook)"
    unfolding hooks' look by (simp add: old new)
qed

lemma by_name_ok_member:
  assumes "registry_ok s" "by_name_ok s" "objects s h = Some obj" "initialized obj"
    and "attrs obj = TemplateAttrs a name t"
  shows "h \<in> set (TemplateHook_by_name s name)"
proof -
  have "h \<in> set (hooks s TemplateHook)"
    using registry_ok_live [OF assms(1,3,4)] assms(5) by simp
  moreover have "template_named s name h"
    using assms(3,5) by (simp add: template_named_def)
  ultimately show ?thesis
    using assms(2) by (simp add: by_name_ok_def)
qed

lemma TemplateHook_shutdown_eq:
  assumes "registry_ok s" "by_name_ok s" "objects s h = Some obj" "initialized obj"
    and "attrs obj = TemplateAttrs a name t"
  shows "TemplateHook_shutdown h name s =
     (None, (snd (ExtensionHook_shutdown h s))
              \<lparr>by_name := (by_name s)(name \<mapsto> remove1 h (TemplateHook_by_name s name))\<rparr>)"
proof -
  from by_name_ok_member [OF assms]
  have "\<exists>l. by_name s name = Some l \<and> h \<in> set l"
    by (cases "by_name s name") (simp_all add: TemplateHook_by_name_def)
  then obtain l where l: "by_name s name = Some l" "h \<in> set l"
    by blast
  then show ?thesis
    by (simp add: TemplateHook_shutdown_def ExtensionHook_shutdown_eq [OF assms(1,3,4)]
        TemplateHook_by_name_def)
qed

lemma by_name_ok_TemplateHook_shutdown:
  assumes "registry_ok s" "by_name_ok s" "objects s h = Some obj" "initialized obj"
    and "attrs obj = TemplateAttrs a name t"
  shows "by_name_ok (snd (TemplateHook_shutdown h name s))"
  unfolding by_name_ok_def
proof
  fix n
  let ?s' = "snd (TemplateHook_shutdown h name s)"
  note eq = TemplateHook_shutdown_eq [OF assms] ExtensionHook_shutdown_eq [OF assms(1,3,4)]
  have dist: "distinct (hooks s TemplateHook)"
    using assms(1) by (simp add: registry_ok_def)
  have hooks': "hooks ?s' TemplateHook = remove1 h (hooks s TemplateHook)"
    using assms(5) by (simp add: eq)
  have named: "template_named ?s' n = template_named s n"
    using assms(3) by (auto simp: fun_eq_iff template_named_def eq)
  have own: "template_named s n h \<longleftrightarrow> name = n"
    using assms(3,5) by (simp add: template_named_def)
  have look: "TemplateHook_by_name ?s' n
      = (if name = n then remove1 h (TemplateHook_by_name s n) else TemplateHook_by_name s n)"
    by (simp add: eq TemplateHook_by_name_def)
  from assms(2) have inv: "TemplateHook_by_name s n = filter (template_named s n) (hooks s TemplateHook)"
    by (simp add: by_name_ok_def)
  show "TemplateHook_by_name ?s' n = filter (template_named ?s' n) (hooks ?s' TemplateHook)"
  proof (cases "name = n")
    case True
    then show ?thesis
      unfolding hooks' look named inv by (simp add: filter_remove1_distinct [OF dist])
  next
    case False
    with own have "\<not> template_named s n h" by simp
    with False show ?thesis
      unfolding hooks' look named inv by (simp add: filter_remove1_other)
  qed
qed

subsection \<open>Every operation keeps the invariant\<close>

lemma invariant_process_start: "invariant (process_start routes cols)"
  by (simp add: invariant_def process_start_def registry_ok_def routes_ok_def columns_ok_def
      signals_ok_def by_name_ok_def TemplateHook_by_name_def)

lemma invariant_URLHook_init:
  assumes "invariant s"
  shows "invariant (snd (URLHook_init ext ps s))"
proof -
  from assms have r: "registry_ok s" and u: "routes_ok s" and c: "columns_ok s"
    and g: "signals_ok s" and b: "by_name_ok s"
    by (simp_all add: invariant_def)
  show ?thesis
    unfolding invariant_def
    using routes_ok_URLHook_init [OF r u, of ext ps]
      registry_ok_init [OF r] columns_ok_init_other [OF r c]
      signals_ok_init_other [OF r g] by_name_ok_init_other [OF r b]
    by (simp add: URLHook_init_eq add_patterns_transparent)
qed

lemma invariant_DataGridColumnsHook_init:
  assumes "invariant s" "DataGridColumnsHook_init ext d cs s = (Inr h, s')"
  shows "invariant s'"
proof -
  from assms have r: "registry_ok s" and u: "routes_ok s" and c: "columns_ok s"
    and g: "signals_ok s" and b: "by_name_ok s"
    by (simp_all add: invariant_def)
  show ?thesis
    unfolding invariant_def
    using columns_ok_DataGridColumnsHook_init [OF r c assms(2)]
      registry_ok_init [OF r] routes_ok_init_other [OF r u]
      signals_ok_init_other [OF r g] by_name_ok_init_other [OF r b]
    by (simp add: DataGridColumnsHook_init_ok(2) [OF assms(2)] columns_update_transparent)
qed

lemma invariant_SignalHook_init:
  assumes "invariant s"
  shows "invariant (snd (SignalHook_init ext sg cb sender s))"
proof -
  from assms have r: "registry_ok s" and u: "routes_ok s" and c: "columns_ok s"
    and g: "signals_ok s" and b: "by_name_ok s"
    by (simp_all add: invariant_def)
  let ?s0 = "s\<lparr>next_uuid := Suc (next_uuid s)\<rparr>"
  have r0: "registry_ok ?s0" and u0: "routes_ok ?s0" and c0: "columns_ok ?s0"
    and b0: "by_name_ok ?s0"
    using r u c b by (simp_all add: next_uuid_update_transparent)
  show ?thesis
    unfolding invariant_def
    using signals_ok_SignalHook_init [OF r g, of ext sg cb sender]
      registry_ok_init [OF r0] routes_ok_init_other [OF r0 u0]
      columns_ok_init_other [OF r0 c0] by_name_ok_init_other [OF r0 b0]
    by (simp add: SignalHook_init_eq signal_connect_def receivers_update_transparent)
qed

lemma invariant_TemplateHook_init:
  assumes "invariant s"
  shows "invariant (snd (TemplateHook_init ext name template_name apply_to s))"
proof -
  from assms have r: "registry_ok s" and u: "routes_ok s" and c: "columns_ok s"
    and g: "signals_ok s" and b: "by_name_ok s"
    by (simp_all add: invariant_def)
  show ?thesis
    unfolding invariant_def
    using by_name_ok_TemplateHook_init [OF r b, of ext name template_name apply_to]
      registry_ok_init [OF r] routes_ok_init_other [OF r u]
      columns_ok_init_other [OF r c] signals_ok_init_other [OF r g]
    by (simp add: TemplateHook_init_eq by_name_update_transparent)
qed

lemma invariant_DataGridColumnsHook_shutdown:
  assumes "invariant s" "objects s h = Some obj" "initialized obj"
    and "attrs obj = DataGridColumnsAttrs d cs"
  shows "invariant (snd (DataGridColumnsHook_shutdown h d cs s))"
proof -
  from assms have r: "registry_ok s" and u: "routes_ok s" and c: "columns_ok s"
    and g: "signals_ok s" and b: "by_name_ok s"
    by (simp_all add: invariant_def)
  note live = r assms(2,3)
  have k: "hook_point_of (attrs obj) \<noteq> URLHook" "hook_point_of (attrs obj) \<noteq> SignalHook"
    "hook_point_of (attrs obj) \<noteq> TemplateHook"
    using assms(4) by simp_all
  show ?thesis
    unfolding invariant_def
    using columns_ok_DataGridColumnsHook_shutdown [OF live assms(4) c]
      registry_ok_shutdown [OF live] routes_ok_shutdown_other [OF live u k(1)]
      signals_ok_shutdown_other [OF live g k(2)] by_name_ok_shutdown_other [OF live b k(3)]
    by (simp add: DataGridColumnsHook_shutdown_eq [OF live] columns_update_transparent)
qed

lemma invariant_URLHook_shutdown:
  assumes "invariant s" "objects s h = Some obj" "initialized obj"
    and "attrs obj = URLAttrs ps r0"
  shows "invariant (snd (URLHook_shutdown h ps r0 s))"
proof -
  from assms have r: "registry_ok s" and u: "routes_ok s" and c: "columns_ok s"
    and g: "signals_ok s" and b: "by_name_ok s"
    by (simp_all add: invariant_def)
  note live = r assms(2,3)
  have k: "hook_point_of (attrs obj) \<noteq> DataGridColumnsHook"
    "hook_point_of (attrs obj) \<noteq> SignalHook" "hook_point_of (attrs obj) \<noteq> TemplateHook"
    using assms(4) by simp_all
  show ?thesis
    unfolding invariant_def
    using routes_ok_URLHook_shutdown [OF live assms(4) u]
      registry_ok_shutdown [OF live] columns_ok_shutdown_other [OF live c k(1)]
      signals_ok_shutdown_other [OF live g k(2)] by_name_ok_shutdown_other [OF live b k(3)]
    by (simp add: URLHook_shutdown_eq [OF live] remove_patterns_transparent)
qed

lemma invariant_SignalHook_shutdown:
  assumes "invariant s" "objects s h = Some obj" "initialized obj"
    and "attrs obj = SignalAttrs sg cb uid"
  shows "invariant (snd (SignalHook_shutdown h sg uid s))"
proof -
  from assms have r: "registry_ok s" and u: "routes_ok s" and c: "columns_ok s"
    and g: "signals_ok s" and b: "by_name_ok s"
    by (simp_all add: invariant_def)
  note live = r assms(2,3)
  have k: "hook_point_of (attrs obj) \<noteq> DataGridColumnsHook"
    "hook_point_of (attrs obj) \<noteq> URLHook" "hook_point_of (attrs obj) \<noteq> TemplateHook"
    using assms(4) by simp_all
  show ?thesis
    unfolding invariant_def
    using signals_ok_SignalHook_shutdown [OF live assms(4) g]
      registry_ok_shutdown [OF live] columns_ok_shutdown_other [OF live c k(1)]
      routes_ok_shutdown_other [OF live u k(2)] by_name_ok_shutdown_other [OF live b k(3)]
    by (simp add: SignalHook_shutdown_eq [OF live] signal_disconnect_def
        receivers_update_transparent)
qed

lemma invariant_TemplateHook_shutdown:
  assumes "invariant s" "objects s h = Some obj" "initialized obj"
    and "attrs obj = TemplateAttrs a name t"
  shows "invariant (snd (TemplateHook_shutdown h name s))"
proof -
  from assms have r: "registry_ok s" and u: "routes_ok s" and c: "columns_ok s"
    and g: "signals_ok s" and b: "by_name_ok s"
    by (simp_all add: invariant_def)
  note live = r assms(2,3)
  have k: "hook_point_of (attrs obj) \<noteq> DataGridColumnsHook"
    "hook_point_of (attrs obj) \<noteq> URLHook" "hook_point_of (attrs obj) \<noteq> SignalHook"
    using assms(4) by simp_all
  show ?thesis
    unfolding invariant_def
    using by_name_ok_TemplateHook_shutdown [OF r b assms(2,3,4)]
      registry_ok_shutdown [OF live] columns_ok_shutdown_other [OF live c k(1)]
      routes_ok_shutdown_other [OF live u k(2)] signals_ok_shutdown_other [OF live g k(3)]
    by (simp add: TemplateHook_shutdown_eq [OF r b assms(2,3,4)] by_name_update_transparent)
qed

lemma shutdown_live:
  assumes "invariant s" "objects s h = Some obj" "initialized obj"
  shows "fst (shutdown h s) = None" and "invariant (snd (shutdown h s))"
proof -
  from assms(1) have r: "registry_ok s" and b: "by_name_ok s"
    by (simp_all add: invariant_def)
  show "fst (shutdown h s) = None"
    using assms(2)
    by (cases "attrs obj")
      (simp_all add: shutdown_def DataGridColumnsHook_shutdown_eq [OF r assms(2,3)]
        URLHook_shutdown_eq [OF r assms(2,3)] SignalHook_shutdown_eq [OF r assms(2,3)]
        TemplateHook_shutdown_eq [OF r b assms(2,3)])
  show "invariant (snd (shutdown h s))"
  proof (cases "attrs obj")
    case (DataGridColumnsAttrs d cs)
    with invariant_DataGridColumnsHook_shutdown [OF assms this] assms(2)
    show ?thesis by (simp add: shutdown_def)
  next
    case (URLAttrs ps r0)
    with invariant_URLHook_shutdown [OF assms this] assms(2)
    show ?thesis by (simp add: shutdown_def)
  next
    case (SignalAttrs sg cb uid)
    with invariant_SignalHook_shutdown [OF assms this] assms(2)
    show ?thesis by (simp add: shutdown_def)
  next
    case (TemplateAttrs a n t)
    with invariant_TemplateHook_shutdown [OF assms this] assms(2)
    show ?thesis by (simp add: shutdown_def)
  qed
qed

lemma shutdown_not_initialized:
  assumes "objects s h = Some obj" "\<not> initialized obj"
  shows "shutdown h s = (Some AssertionError, s)"
  using assms
  by (cases "attrs obj")
    (simp_all add: shutdown_def DataGridColumnsHook_shutdown_def URLHook_shutdown_def
      SignalHook_shutdown_def TemplateHook_shutdown_def ExtensionHook_shutdown_def)

lemma shutdown_ok_live:
  assumes "shutdown h s = (None, s')"
  shows "\<exists>obj. objects s h = Some obj \<and> initialized obj"
proof (cases "objects s h")
  case None
  with assms show ?thesis by (simp add: shutdown_def)
next
  case (Some obj)
  with assms shutdown_not_initialized [OF Some] show ?thesis
    by (cases "initialized obj") auto
qed

lemma invariant_create:
  assumes "invariant s" "create x s = (Inr h, s')"
  shows "invariant s'"
proof (cases x)
  case (NewDataGridColumnsHook ext d cs)
  with assms show ?thesis by (auto intro: invariant_DataGridColumnsHook_init)
next
  case (NewURLHook ext ps)
  with assms invariant_URLHook_init [OF assms(1), of ext ps] show ?thesis by auto
next
  case (NewSignalHook ext sg cb sender)
  with assms invariant_SignalHook_init [OF assms(1), of ext sg cb sender] show ?thesis by auto
next
  case (NewTemplateHook ext name tn a)
  with assms invariant_TemplateHook_init [OF assms(1), of ext name tn a] show ?thesis by auto
next
  case (Shutdown h')
  with assms(2) have ok: "shutdown h' s = (None, s')"
    by (auto split: prod.splits option.splits)
  from shutdown_ok_live [OF ok] obtain obj where "objects s h' = Some obj" "initialized obj"
    by blast
  from shutdown_live(2) [OF assms(1) this] ok show ?thesis by simp
qed

lemma invariant_run:
  "invariant s \<Longrightarrow> run xs s = Inr s' \<Longrightarrow> invariant s'"
proof (induction xs arbitrary: s)
  case Nil
  then show ?case by simp
next
  case (Cons x xs)
  from Cons.prems(2) obtain h s1 where c: "create x s = (Inr h, s1)" and r: "run xs s1 = Inr s'"
    by (auto split: prod.splits sum.splits)
  from Cons.IH [OF invariant_create [OF Cons.prems(1) c] r] show ?case .
qed

lemma invariant_reachable:
  "run xs (process_start routes cols) = Inr s \<Longrightarrow> invariant s"
  by (rule invariant_run [OF invariant_process_start])

subsection \<open>What a shutdown does to the registry\<close>

lemma shutdown_effect:
  assumes "invariant s" "objects s h = Some obj" "initialized obj"
  shows "hooks (snd (shutdown h s)) = (hooks s)(hook_point_of (attrs obj) :=
           remove1 h (hooks s (hook_point_of (attrs obj))))"
    and "objects (snd (shutdown h s)) = (objects s)(h \<mapsto> obj\<lparr>initialized := False\<rparr>)"
    and "next_id (snd (shutdown h s)) = next_id s"
proof -
  from assms(1) have r: "registry_ok s" and b: "by_name_ok s"
    by (simp_all add: invariant_def)
  note eqs = DataGridColumnsHook_shutdown_eq [OF r assms(2,3)]
    URLHook_shutdown_eq [OF r assms(2,3)] SignalHook_shutdown_eq [OF r assms(2,3)]
    TemplateHook_shutdown_eq [OF r b assms(2,3)] ExtensionHook_shutdown_eq [OF r assms(2,3)]
    remove_patterns_def signal_disconnect_def
  show "hooks (snd (shutdown h s)) = (hooks s)(hook_point_of (attrs obj) :=
           remove1 h (hooks s (hook_point_of (attrs obj))))"
    using assms(2) by (cases "attrs obj") (simp_all add: shutdown_def eqs)
  show "objects (snd (shutdown h s)) = (objects s)(h \<mapsto> obj\<lparr>initialized := False\<rparr>)"
    using assms(2) by (cases "attrs obj") (simp_all add: shutdown_def eqs)
  show "next_id (snd (shutdown h s)) = next_id s"
    using assms(2) by (cases "attrs obj") (simp_all add: shutdown_def eqs)
qed

lemma shutdown_unregisters:
  assumes "invariant s" "objects s h = Some obj" "initialized obj"
  shows "h \<notin> set (hooks (snd (shutdown h s)) cls)"
proof
  assume "h \<in> set (hooks (snd (shutdown h s)) cls)"
  moreover have "registry_ok (snd (shutdown h s))"
    using shutdown_live(2) [OF assms] by (simp add: invariant_def)
  ultimately obtain obj' where "objects (snd (shutdown h s)) h = Some obj'" "initialized obj'"
    using registry_ok_member by blast
  then show False
    by (auto simp: shutdown_effect(2) [OF assms])
qed

lemma create_Shutdown_ok:
  "fst (shutdown h s) = None \<Longrightarrow> create (Shutdown h) s = (Inr h, snd (shutdown h s))"
  by (cases "shutdown h s") auto

lemma demo_url_run: "run [NewURLHook demo_ext [10, 20]] demo_start = Inr demo_url_state"
  by (simp add: demo_url_state_def URLHook_init_eq)

lemma demo_url_object:
  "objects demo_url_state 0
     = Some \<lparr>hook_extension = demo_ext, initialized = True, attrs = URLAttrs [10, 20] 0\<rparr>"
  by (simp add: demo_url_state_def URLHook_init_eq ExtensionHook_init_eq add_patterns_def
      demo_start_def process_start_def demo_ext_def)

lemma demo_url_hooks: "hooks demo_url_state URLHook = [0]"
  by (simp add: demo_url_state_def URLHook_init_eq ExtensionHook_init_eq add_patterns_def
      demo_start_def process_start_def demo_ext_def)

lemma context_pop_setitem: "context_pop (context_setitem c k v) = context_pop c"
proof (cases c)
  case (Context b ss)
  then show ?thesis by (cases ss) simp_all
qed

lemma context_pop_push: "context_pop (context_setitem (context_push c) k v) = Inr c"
  by (cases c) simp

lemma context_getitem_setitem: "context_getitem (context_setitem c k v) k = Some v"
proof (cases c)
  case (Context b ss)
  then show ?thesis by (cases ss) simp_all
qed

subsection \<open>Template hooks by name\<close>

lemma by_name_bound:
  assumes "invariant s" "h \<in> set (TemplateHook_by_name s n)"
  shows "h < next_id s"
proof -
  from assms(1) have r: "registry_ok s" and b: "by_name_ok s"
    by (simp_all add: invariant_def)
  from assms(2) b have "h \<in> set (hooks s TemplateHook)"
    by (simp add: by_name_ok_def)
  from registry_ok_member [OF r this] r show ?thesis
    by (auto simp: registry_ok_def)
qed

lemma TemplateHook_init_fields:
  "next_id (snd (TemplateHook_init ext name tn a s)) = Suc (next_id s)"
  "objects (snd (TemplateHook_init ext name tn a s)) = (objects s)(next_id s \<mapsto>
      \<lparr>hook_extension = ext, initialized = True, attrs = TemplateAttrs a name tn\<rparr>)"
  "TemplateHook_by_name (snd (TemplateHook_init ext name tn a s)) n
     = TemplateHook_by_name s n @ (if name = n then [next_id s] else [])"
  by (simp_all add: TemplateHook_init_eq ExtensionHook_init_eq TemplateHook_by_name_def)

lemma attach_templates_props:
  assumes "invariant s" "attach_templates args name s = (hs, s')"
  shows "invariant s'
    \<and> TemplateHook_by_name s' name = TemplateHook_by_name s name @ hs
    \<and> length hs = length args
    \<and> distinct hs
    \<and> next_id s \<le> next_id s'
    \<and> (\<forall>h\<in>set hs. next_id s \<le> h \<and> h < next_id s'
          \<and> (\<exists>obj a t. objects s' h = Some obj \<and> initialized obj
                \<and> attrs obj = TemplateAttrs a name t))
    \<and> (\<forall>h. h < next_id s \<longrightarrow> objects s' h = objects s h)"
  using assms
proof (induction args arbitrary: s hs)
  case Nil
  then show ?case by simp
next
  case (Cons x args)
  obtain ext tn a where x: "x = (ext, tn, a)" by (cases x)
  let ?s1 = "snd (TemplateHook_init ext name tn a s)"
  obtain hs1 where rest: "attach_templates args name ?s1 = (hs1, s')"
    and hs: "hs = next_id s # hs1"
    using Cons.prems(2) x
    by (auto simp: TemplateHook_init_eq split: prod.splits)
  note f = TemplateHook_init_fields [of ext name tn a s]
  have inv1: "invariant ?s1"
    by (rule invariant_TemplateHook_init [OF Cons.prems(1)])
  from Cons.IH [OF inv1 rest] have
    i: "invariant s'" and
    l: "TemplateHook_by_name s' name = TemplateHook_by_name ?s1 name @ hs1" and
    n: "length hs1 = length args" and
    d: "distinct hs1" and
    m: "next_id ?s1 \<le> next_id s'" and
    p: "\<forall>h\<in>set hs1. next_id ?s1 \<le> h \<and> h < next_id s'
          \<and> (\<exists>obj a t. objects s' h = Some obj \<and> initialized obj
                \<and> attrs obj = TemplateAttrs a name t)" and
    k: "\<forall>h. h < next_id ?s1 \<longrightarrow> objects s' h = objects ?s1 h"
    by blast+
  have new: "objects s' (next_id s)
      = Some \<lparr>hook_extension = ext, initialized = True, attrs = TemplateAttrs a name tn\<rparr>"
    using k by (simp add: f)
  have old: "\<forall>h. h < next_id s \<longrightarrow> objects s' h = objects s h"
    using k by (simp add: f)
  have fresh: "next_id s \<notin> set hs1"
    using p by (auto simp: f)
  show ?case
    using i l n d m p new old fresh x
    by (auto simp: hs f)
qed

lemma attach_templates_shutdown:
  assumes "invariant s" "attach_templates args name s = (hs, s')" "h \<in> set hs"
  shows "fst (shutdown h s') = None"
    and "TemplateHook_by_name (snd (shutdown h s')) name
       = TemplateHook_by_name s name @ remove1 h hs"
proof -
  note props = attach_templates_props [OF assms(1,2)]
  from props have inv': "invariant s'" by blast
  from props assms(3) obtain obj a t where
    obj: "objects s' h = Some obj" "initialized obj" "attrs obj = TemplateAttrs a name t"
    and ge: "next_id s \<le> h"
    by blast
  from inv' have r: "registry_ok s'" and b: "by_name_ok s'"
    by (simp_all add: invariant_def)
  show "fst (shutdown h s') = None"
    by (rule shutdown_live(1) [OF inv' obj(1,2)])
  have notin: "h \<notin> set (TemplateHook_by_name s name)"
    using by_name_bound [OF assms(1)] ge by fastforce
  have "TemplateHook_by_name (snd (shutdown h s')) name
      = remove1 h (TemplateHook_by_name s' name)"
    using obj
    by (simp add: shutdown_def TemplateHook_shutdown_eq [OF r b obj]
        ExtensionHook_shutdown_eq [OF r obj(1,2)] TemplateHook_by_name_def)
  also have "\<dots> = TemplateHook_by_name s name @ remove1 h hs"
    using props notin by (simp add: remove1_append)
  finally show "TemplateHook_by_name (snd (shutdown h s')) name
       = TemplateHook_by_name s name @ remove1 h hs" .
qed

lemma demo_url_next_id: "next_id demo_url_state = 1"
  by (simp add: demo_url_state_def URLHook_init_eq ExtensionHook_init_eq add_patterns_def
      demo_start_def process_start_def)

lemma demo_url_by_name: "TemplateHook_by_name demo_url_state n = []"
  by (simp add: demo_url_state_def URLHook_init_eq ExtensionHook_init_eq add_patterns_def
      demo_start_def process_start_def TemplateHook_by_name_def)

lemma demo_attach:
  "attach_templates demo_template_args ''sidebar'' demo_url_state
     = ([1, 2, 3], demo_templates_state)"
  by (simp add: demo_templates_state_def demo_template_args_def TemplateHook_init_eq
      TemplateHook_init_fields ExtensionHook_init_eq demo_url_next_id split: prod.splits)

subsection \<open>A shutdown reverses the attachment\<close>








subsection \<open>Creating a hook and shutting it down\<close>









section \<open>Properties of the hooks\<close>

text \<open>
  Claim C6. In every state that a sequence of operations reaches, an instance whose flag
  \<^verbatim>\<open>initialized\<close> is true is in the list of its hook point; its shutdown returns
  normally (the assertion holds and \<^verbatim>\<open>list.remove\<close> finds it), removes it from that
  list and clears the flag. The shutdown of an instance whose flag is false raises
  \<^verbatim>\<open>AssertionError\<close> and changes nothing.
\<close>

theorem shutdown_requires_initialized:
  assumes "run ops (process_start routes cols) = Inr s"
    and "objects s h = Some obj"
  shows "if initialized obj
         then fst (shutdown h s) = None
              \<and> h \<in> set (hooks s (hook_point_of (attrs obj)))
              \<and> hooks (snd (shutdown h s)) = (hooks s)(hook_point_of (attrs obj) :=
                   remove1 h (hooks s (hook_point_of (attrs obj))))
              \<and> h \<notin> set (hooks (snd (shutdown h s)) (hook_point_of (attrs obj)))
              \<and> objects (snd (shutdown h s)) h = Some (obj\<lparr>initialized := False\<rparr>)
         else shutdown h s = (Some AssertionError, s)"
proof (cases "initialized obj")
  case True
  note inv = invariant_reachable [OF assms(1)]
  from inv have "registry_ok s" by (simp add: invariant_def)
  have "h \<notin> set (hooks (snd (shutdown h s)) (hook_point_of (attrs obj)))"
    by (rule shutdown_unregisters [OF inv assms(2) True])
  moreover have "objects (snd (shutdown h s)) h = Some (obj\<lparr>initialized := False\<rparr>)"
    by (simp add: shutdown_effect(2) [OF inv assms(2) True])
  moreover note registry_ok_live [OF \<open>registry_ok s\<close> assms(2) True]
    shutdown_live(1) [OF inv assms(2) True] shutdown_effect(1) [OF inv assms(2) True]
  ultimately show ?thesis using True by simp
next
  case False
  with shutdown_not_initialized [OF assms(2)] show ?thesis by simp
qed

text \<open>
  The theorem on one URL hook: its first shutdown removes it, its second one raises.
\<close>

theorem shutdown_requires_initialized_witness:
  "fst (shutdown 0 demo_url_state) = None
   \<and> hooks demo_url_state URLHook = [0]
   \<and> hooks (snd (shutdown 0 demo_url_state)) URLHook = []
   \<and> shutdown 0 (snd (shutdown 0 demo_url_state))
       = (Some AssertionError, snd (shutdown 0 demo_url_state))"
proof -
  note run1 = demo_url_run [unfolded demo_start_def]
  from shutdown_requires_initialized [OF run1 demo_url_object]
  have first: "fst (shutdown 0 demo_url_state) = None"
    and gone: "hooks (snd (shutdown 0 demo_url_state)) URLHook = []"
    and flag: "objects (snd (shutdown 0 demo_url_state)) 0
      = Some \<lparr>hook_extension = demo_ext, initialized = False, attrs = URLAttrs [10, 20] 0\<rparr>"
    by (simp_all add: demo_url_hooks)
  from first have c2:
    "create (Shutdown 0) demo_url_state = (Inr 0, snd (shutdown 0 demo_url_state))"
    by (rule create_Shutdown_ok)
  have c1: "create (NewURLHook demo_ext [10, 20])
      (process_start (\<lambda>r. if r = 0 then [7] else [])
         (\<lambda>d. if d = ''ReviewGrid'' then [''summary''] else []))
      = (Inr 0, demo_url_state)"
    by (simp add: demo_url_state_def demo_start_def URLHook_init_eq process_start_def)
  have run2: "run [NewURLHook demo_ext [10, 20], Shutdown 0]
      (process_start (\<lambda>r. if r = 0 then [7] else [])
         (\<lambda>d. if d = ''ReviewGrid'' then [''summary''] else []))
      = Inr (snd (shutdown 0 demo_url_state))"
    by (simp add: c1 c2 del: create.simps)
  from shutdown_requires_initialized [OF run2 flag]
  have "shutdown 0 (snd (shutdown 0 demo_url_state))
       = (Some AssertionError, snd (shutdown 0 demo_url_state))"
    by simp
  with first gone show ?thesis by (simp add: demo_url_hooks)
qed

text \<open>
  Claim C9. Let the template engine leave alone what lies below the topmost scope: the
  context it returns pops to the same context as the one it was given. Then, for every
  context, \<^verbatim>\<open>render_to_string\<close> hands the engine the context with one more scope, in
  which \<^verbatim>\<open>extension\<close> is bound to the hook's extension; its outcome is the engine's, a
  text or an exception; and on both paths the context is afterwards exactly the one
  before the call, whatever the engine bound in the pushed scope.
\<close>

theorem render_to_string_scoped:
  assumes "\<And>t c. context_pop (snd (render t c)) = context_pop c"
  shows "snd (render_to_string render ext template_name ctx) = ctx
         \<and> fst (render_to_string render ext template_name ctx)
             = fst (render template_name
                   (context_setitem (context_push ctx) ''extension'' (ExtensionValue ext)))
         \<and> context_getitem
               (context_setitem (context_push ctx) ''extension'' (ExtensionValue ext))
               ''extension'' = Some (ExtensionValue ext)
         \<and> context_pop
               (context_setitem (context_push ctx) ''extension'' (ExtensionValue ext))
             = Inr ctx"
proof -
  let ?c2 = "context_setitem (context_push ctx) ''extension'' (ExtensionValue ext)"
  obtain res c3 where r: "render template_name ?c2 = (res, c3)"
    by (cases "render template_name ?c2")
  from assms [of template_name ?c2] r have "context_pop c3 = Inr ctx"
    by (simp add: context_pop_push)
  with r show ?thesis
    by (simp add: render_to_string_def Let_def context_pop_push context_getitem_setitem)
qed

text \<open>
  The theorem on an engine that binds a name in the topmost scope and then returns a
  text for one template and raises for the other.
\<close>

theorem render_to_string_scoped_witness:
  "render_to_string demo_render demo_ext (Some ''hook.html'') demo_context
     = (Inr ''<li>demo</li>'', demo_context)
   \<and> render_to_string demo_render demo_ext (Some ''broken.html'') demo_context
     = (Inl (OtherError ''TemplateSyntaxError''), demo_context)"
proof -
  have scoped: "context_pop (snd (demo_render t c)) = context_pop c" for t c
    by (simp add: demo_render_def context_pop_setitem)
  from render_to_string_scoped [of demo_render demo_ext "Some ''hook.html''" demo_context,
      OF scoped]
    render_to_string_scoped [of demo_render demo_ext "Some ''broken.html''" demo_context,
      OF scoped]
  show ?thesis
    by (simp add: prod_eq_iff demo_render_def)
qed

text \<open>
  Claim C7. In every state that a sequence of operations reaches, the lookup by name
  returns the registered template hooks of that name, in the order of the registry; at
  the start of the process it returns the empty list. Creating N template hooks under
  one name appends their N distinct identities, in the order of creation, to the list
  of that name; shutting down any one of them takes it out of the list and leaves the
  others, N - 1 of those created, in their order.
\<close>

theorem by_name_attachment_order:
  assumes "run ops (process_start routes cols) = Inr s"
    and "attach_templates args name s = (hs, s')"
  shows "TemplateHook_by_name (process_start routes cols) name = []
    \<and> TemplateHook_by_name s name = filter (template_named s name) (hooks s TemplateHook)
    \<and> length hs = length args
    \<and> distinct hs
    \<and> TemplateHook_by_name s' name = TemplateHook_by_name s name @ hs
    \<and> (\<forall>h\<in>set hs. fst (shutdown h s') = None
          \<and> TemplateHook_by_name (snd (shutdown h s')) name
              = TemplateHook_by_name s name @ remove1 h hs
          \<and> length (remove1 h hs) = length args - 1)"
proof -
  note inv = invariant_reachable [OF assms(1)]
  note props = attach_templates_props [OF inv assms(2)]
  have "TemplateHook_by_name (process_start routes cols) name = []"
    by (simp add: TemplateHook_by_name_def process_start_def)
  moreover have "TemplateHook_by_name s name
      = filter (template_named s name) (hooks s TemplateHook)"
    using inv by (simp add: invariant_def by_name_ok_def)
  moreover have "\<forall>h\<in>set hs. fst (shutdown h s') = None
          \<and> TemplateHook_by_name (snd (shutdown h s')) name
              = TemplateHook_by_name s name @ remove1 h hs
          \<and> length (remove1 h hs) = length args - 1"
    using attach_templates_shutdown [OF inv assms(2)] props
    by (auto simp: length_remove1)
  ultimately show ?thesis
    using props by blast
qed

text \<open>
  The theorem on three template hooks created under the name \<^verbatim>\<open>sidebar\<close> after one URL
  hook, and the shutdown of the second of them.
\<close>

theorem by_name_attachment_order_witness:
  "TemplateHook_by_name demo_templates_state ''sidebar'' = [1, 2, 3]
   \<and> fst (shutdown 2 demo_templates_state) = None
   \<and> TemplateHook_by_name (snd (shutdown 2 demo_templates_state)) ''sidebar'' = [1, 3]"
  using by_name_attachment_order [OF demo_url_run [unfolded demo_start_def] demo_attach]
  by (simp add: demo_url_by_name)




end
